theory Spec2Isabelle
  imports Main "HOL-Library.Word"
begin

section \<open>The per-disk file tracker of the object server\<close>

text \<open>
  The development embeds \<^verbatim>\<open>objectserver/internal/filetracker.go\<close> (type
  \<^verbatim>\<open>FileTracker\<close>) and its second copy (type \<^verbatim>\<open>fileTracker\<close>). Go strings are byte
  strings and are modelled as \<^typ>\<open>string\<close> (lists of 8-bit characters); \<^verbatim>\<open>int\<close> and
  \<^verbatim>\<open>int64\<close> values are modelled as \<^typ>\<open>int\<close> (the code only compares and prints them);
  the \<^verbatim>\<open>uint\<close> partition power is a 64-bit word, a decoded hash byte an 8-bit word.
\<close>

subsection \<open>Errors and outcomes\<close>

datatype error =
    InvalidHashLength string nat
  | InvalidHashDecoding string
  | StartHashGreater string string
  | External string

text \<open>A Go call either returns or panics.\<close>

datatype 'a outcome = Return 'a | Panic string

subsection \<open>Library functions: strings, hex and fmt\<close>

text \<open>
  \<^verbatim>\<open>strings.ToLower\<close>, on bytes: an ASCII upper-case letter is moved to lower case.
  Bytes from 128 on are left as they are. Go lower-cases whole runes there and rewrites
  an invalid byte to U+FFFD, so on such a string the lowered text and its length, which
  the error of \<^verbatim>\<open>validateHash\<close> quotes, are not the ones of this model. No rune outside
  ASCII has a lower case in \<^verbatim>\<open>0-9a-f\<close>: such a string is rejected in either reading,
  and on ASCII strings the two agree.
\<close>

definition toLower_byte :: "char \<Rightarrow> char" where
  "toLower_byte c =
     (if (65::nat) \<le> of_char c \<and> of_char c \<le> (90::nat)
      then char_of (of_char c + (32::nat)) else c)"

definition ToLower :: "string \<Rightarrow> string" where
  "ToLower s = map toLower_byte s"

text \<open>\<^verbatim>\<open>encoding/hex\<close>: \<^verbatim>\<open>fromHexChar\<close> and \<^verbatim>\<open>DecodeString\<close>.\<close>

definition fromHexChar :: "char \<Rightarrow> nat option" where
  "fromHexChar c =
     (let n = (of_char c :: nat) in
      if 48 \<le> n \<and> n \<le> 57 then Some (n - 48)
      else if 97 \<le> n \<and> n \<le> 102 then Some (n - 97 + 10)
      else if 65 \<le> n \<and> n \<le> 70 then Some (n - 65 + 10)
      else None)"

datatype hex_error = InvalidByteError char | ErrLength

fun DecodeString :: "string \<Rightarrow> hex_error + 8 word list" where
  "DecodeString [] = Inr []"
| "DecodeString [c] =
     (case fromHexChar c of None \<Rightarrow> Inl (InvalidByteError c) | Some _ \<Rightarrow> Inl ErrLength)"
| "DecodeString (c # d # s) =
     (case fromHexChar c of
        None \<Rightarrow> Inl (InvalidByteError c)
      | Some a \<Rightarrow>
         (case fromHexChar d of
            None \<Rightarrow> Inl (InvalidByteError d)
          | Some b \<Rightarrow>
             (case DecodeString s of
                Inl e \<Rightarrow> Inl e
              | Inr bs \<Rightarrow> Inr (of_nat (a * 16 + b) # bs))))"

text \<open>The digits of \<^verbatim>\<open>fmt\<close>: lower-case hexadecimal and decimal, most significant first.\<close>

definition digit_char :: "nat \<Rightarrow> char" where
  "digit_char d = ''0123456789abcdef'' ! (d mod 16)"

fun hex_digits :: "nat \<Rightarrow> string" where
  "hex_digits n = (if n < 16 then [digit_char n] else hex_digits (n div 16) @ [digit_char (n mod 16)])"

fun dec_digits :: "nat \<Rightarrow> string" where
  "dec_digits n = (if n < 10 then [digit_char n] else dec_digits (n div 10) @ [digit_char (n mod 10)])"

declare hex_digits.simps [simp del] dec_digits.simps [simp del]

text \<open>
  \<^verbatim>\<open>fmt\<close>'s integer verbs with the \<^verbatim>\<open>0\<close> flag and a width: the digits of the absolute
  value are padded with zeros to the width, less one when a sign is printed.
\<close>

definition fmt_zero_pad :: "nat \<Rightarrow> bool \<Rightarrow> string \<Rightarrow> string" where
  "fmt_zero_pad wid negative ds =
     (let prec = (if negative then wid - 1 else wid) in
      (if negative then ''-'' else '''') @ replicate (prec - length ds) (CHR ''0'') @ ds)"

definition fmt_02x :: "int \<Rightarrow> string" where
  "fmt_02x i = fmt_zero_pad 2 (i < 0) (hex_digits (nat \<bar>i\<bar>))"

definition fmt_019d :: "int \<Rightarrow> string" where
  "fmt_019d i = fmt_zero_pad 19 (i < 0) (dec_digits (nat \<bar>i\<bar>))"

text \<open>
  The verb \<^verbatim>\<open>%032x\<close> applied to a string: every byte of the string is printed as two
  lower-case hexadecimal digits, and the result is padded on the left to 32 characters.
\<close>

definition hex_of_byte :: "char \<Rightarrow> string" where
  "hex_of_byte c = [digit_char (of_char c div 16), digit_char (of_char c mod 16)]"

definition fmt_032x_string :: "string \<Rightarrow> string" where
  "fmt_032x_string s =
     (let enc = concat (map hex_of_byte s) in replicate (32 - length enc) (CHR ''0'') @ enc)"

subsection \<open>Library functions: path.Clean and path.Join\<close>

fun split_slash :: "string \<Rightarrow> string list" where
  "split_slash [] = [[]]"
| "split_slash (c # cs) =
     (if c = CHR ''/'' then [] # split_slash cs
      else (case split_slash cs of [] \<Rightarrow> [[c]] | e # es \<Rightarrow> (c # e) # es))"

text \<open>
  One element of the path is consumed; the elements kept so far are held last first.
  An empty element and \<^verbatim>\<open>.\<close> are dropped, \<^verbatim>\<open>..\<close> removes the last kept element (in a
  relative path it is kept when nothing is left to remove), any other element is kept.
\<close>

definition clean_step :: "bool \<Rightarrow> string list \<Rightarrow> string \<Rightarrow> string list" where
  "clean_step rooted kept e =
     (if e = [] \<or> e = ''.'' then kept
      else if e = ''..'' then
        (case kept of
           [] \<Rightarrow> (if rooted then [] else [''..''])
         | k # ks \<Rightarrow> (if k = ''..'' then ''..'' # kept else ks))
      else e # kept)"

fun join_slash :: "string list \<Rightarrow> string" where
  "join_slash [] = []"
| "join_slash [e] = e"
| "join_slash (e # es) = e @ ''/'' @ join_slash es"

definition Clean :: "string \<Rightarrow> string" where
  "Clean p =
     (if p = [] then ''.''
      else
        (let rooted = (hd p = CHR ''/'');
             kept = foldl (clean_step rooted) [] (split_slash p)
         in if rooted then ''/'' @ join_slash (rev kept)
            else if kept = [] then ''.'' else join_slash (rev kept)))"

definition Join :: "string \<Rightarrow> string \<Rightarrow> string" where
  "Join a b =
     (if a = [] \<and> b = [] then []
      else if a = [] then Clean b
      else Clean (a @ ''/'' @ b))"

subsection \<open>The index rows and the tracker\<close>

text \<open>
  One row of the table \<^verbatim>\<open>files\<close>. The code always binds a string to \<^verbatim>\<open>metahash\<close>; a
  \<^verbatim>\<open>nil\<close> or NULL \<^verbatim>\<open>metadata\<close> is the empty byte string.
\<close>

record files_row =
  row_hash :: string
  row_shard :: int
  row_timestamp :: int
  row_metahash :: string
  row_metadata :: string

type_synonym db = "files_row list"

text \<open>
  The tracker. A database handle is modelled by the table it gives access to (every
  partition opens a file of its own); the logger by the messages written to it.
\<close>

record FileTracker =
  path :: string
  diskPartPower :: "64 word"
  tempPath :: string
  dbs :: "db list"
  logger :: "string list"

type_synonym fileTracker = FileTracker

record FileTrackerItem =
  Hash :: string
  Shard :: int
  Timestamp :: int
  Metahash :: string

record fileTrackerItem =
  item_hash :: string
  item_shard :: int
  item_timestamp :: int
  item_metahash :: string

text \<open>The regular files of the disk: the published blobs, by path.\<close>

type_synonym files = "string \<rightharpoonup> string"

subsection \<open>The outside world\<close>

text \<open>
  The outcome of every step that leaves the program: a step on the database of a
  partition, or on a file of a given path, fails with the error given here, if any.
  At start-up the database file of a partition holds the table \<^verbatim>\<open>files\<close> with the rows
  given by \<^verbatim>\<open>on_disk\<close>, or no table yet.
\<close>

record io_env =
  begin_err :: "nat \<Rightarrow> error option"
  query_err :: "nat \<Rightarrow> error option"
  rows_err :: "nat \<Rightarrow> error option"
  scan_err :: "nat \<Rightarrow> error option"
  exec_err :: "nat \<Rightarrow> error option"
  commit_err :: "nat \<Rightarrow> error option"
  save_err :: "string \<Rightarrow> error option"
  remove_err :: "string \<Rightarrow> error option"
  tempfile_err :: "string \<Rightarrow> error option"
  mkdirall_err :: "string \<Rightarrow> error option"
  open_err :: "string \<Rightarrow> error option"
  on_disk :: "nat \<Rightarrow> db option"

text \<open>
  The metadata store of \<^verbatim>\<open>github.com/gholt/kvt\<close> with its JSON encoding, taken as a
  parameter: decoding, encoding, the merge \<^verbatim>\<open>Absorb\<close> and the hash of a store.
\<close>

record 's codec =
  json_Unmarshal :: "string \<Rightarrow> error + 's"
  json_Marshal :: "'s \<Rightarrow> error + string"
  Store_Absorb :: "'s \<Rightarrow> 's \<Rightarrow> 's"
  Store_Hash :: "'s \<Rightarrow> string"

datatype writer_status = Writing | Saved | Abandoned

record AtomicFileWriter =
  written :: string
  status :: writer_status

text \<open>
  Modelled from the spec: \<^verbatim>\<open>fs.AtomicFileWriter\<close> and \<^verbatim>\<open>fs.NewAtomicFileWriter\<close> of
  \<^verbatim>\<open>common/fs\<close> are not among the sources. A writer holds the bytes written to its
  temporary file; \<^verbatim>\<open>Save\<close> publishes them under the final path in one step or fails
  without any effect; \<^verbatim>\<open>Abandon\<close> releases a writer that was not saved and is a no-op
  after \<^verbatim>\<open>Save\<close>.
\<close>

definition NewAtomicFileWriter :: "io_env \<Rightarrow> string \<Rightarrow> string \<Rightarrow> error + AtomicFileWriter" where
  "NewAtomicFileWriter env tempDir dstDir =
     (case tempfile_err env dstDir of
        Some e \<Rightarrow> Inl e
      | None \<Rightarrow> Inr \<lparr>written = [], status = Writing\<rparr>)"

definition Save :: "io_env \<Rightarrow> files \<Rightarrow> AtomicFileWriter \<Rightarrow> string
    \<Rightarrow> error option \<times> files \<times> AtomicFileWriter" where
  "Save env fls f pth =
     (if status f \<noteq> Writing then (Some (External ''file already closed''), fls, f)
      else case save_err env pth of
             Some e \<Rightarrow> (Some e, fls, f)
           | None \<Rightarrow> (None, fls(pth \<mapsto> written f), f\<lparr>status := Saved\<rparr>))"

definition Abandon :: "AtomicFileWriter \<Rightarrow> AtomicFileWriter" where
  "Abandon f = (if status f = Writing then f\<lparr>status := Abandoned\<rparr> else f)"

text \<open>\<^verbatim>\<open>os.Remove\<close> of a regular file.\<close>

definition Remove :: "io_env \<Rightarrow> files \<Rightarrow> string \<Rightarrow> error option \<times> files" where
  "Remove env fls p =
     (case remove_err env p of
        Some e \<Rightarrow> (Some e, fls)
      | None \<Rightarrow>
         (if fls p = None then (Some (External ''no such file or directory''), fls)
          else (None, fls(p := None))))"

subsection \<open>The SQL statements\<close>

text \<open>
  \<^verbatim>\<open>SELECT ... WHERE hash = ? AND shard = ? ORDER BY timestamp DESC\<close>,
  \<^verbatim>\<open>INSERT INTO files\<close> under the primary key \<^verbatim>\<open>(hash, shard)\<close>, \<^verbatim>\<open>UPDATE files SET ...
  WHERE hash = ? AND shard = ?\<close>, and \<^verbatim>\<open>SELECT ... WHERE hash BETWEEN ? AND ?\<close>, which
  compares the text byte by byte.
\<close>

definition select_files :: "db \<Rightarrow> string \<Rightarrow> int \<Rightarrow> files_row list" where
  "select_files d hsh shard =
     sort_key (\<lambda>r. - row_timestamp r) (filter (\<lambda>r. row_hash r = hsh \<and> row_shard r = shard) d)"

definition insert_files :: "db \<Rightarrow> files_row \<Rightarrow> error + db" where
  "insert_files d r =
     (if list_ex (\<lambda>r'. row_hash r' = row_hash r \<and> row_shard r' = row_shard r) d
      then Inl (External ''UNIQUE constraint failed: files.hash, files.shard'')
      else Inr (d @ [r]))"

definition update_files :: "db \<Rightarrow> int \<Rightarrow> string \<Rightarrow> string \<Rightarrow> string \<Rightarrow> int \<Rightarrow> db" where
  "update_files d timestamp metahash metadata hsh shard =
     map (\<lambda>r. if row_hash r = hsh \<and> row_shard r = shard
              then r\<lparr>row_timestamp := timestamp, row_metahash := metahash, row_metadata := metadata\<rparr>
              else r) d"

fun bytes_le :: "string \<Rightarrow> string \<Rightarrow> bool" where
  "bytes_le [] t = True"
| "bytes_le (c # s) [] = False"
| "bytes_le (c # s) (d # t) =
     (if c = d then bytes_le s t else (of_char c :: nat) < of_char d)"

definition select_between :: "db \<Rightarrow> string \<Rightarrow> string \<Rightarrow> files_row list" where
  "select_between d startHash stopHash =
     filter (\<lambda>r. bytes_le startHash (row_hash r) \<and> bytes_le (row_hash r) stopHash) d"

subsection \<open>\<^verbatim>\<open>FileTracker\<close>: validateHash, wholeFileDir, wholeFilePath, TempFile\<close>

definition FileTracker_validateHash :: "FileTracker \<Rightarrow> string \<Rightarrow> error + (string \<times> int)" where
  "FileTracker_validateHash ft hsh0 =
     (let hsh = ToLower hsh0 in
      if length hsh \<noteq> 32 then Inl (InvalidHashLength hsh (length hsh))
      else
        (case DecodeString hsh of
           Inl err \<Rightarrow> Inl (InvalidHashDecoding hsh)
         | Inr hashBytes \<Rightarrow>
            (case hashBytes of
               [] \<Rightarrow> Inl (External ''index out of range'')
             | b # _ \<Rightarrow> Inr (hsh, uint (drop_bit (unat (8 - diskPartPower ft)) b)))))"

definition FileTracker_wholeFileDir :: "FileTracker \<Rightarrow> string \<Rightarrow> error + string" where
  "FileTracker_wholeFileDir ft hsh0 =
     (case FileTracker_validateHash ft hsh0 of
        Inl err \<Rightarrow> Inl err
      | Inr (hsh, diskPart) \<Rightarrow> Inr (Join (path ft) (fmt_02x diskPart)))"

definition FileTracker_wholeFilePath :: "FileTracker \<Rightarrow> string \<Rightarrow> int \<Rightarrow> int \<Rightarrow> error + string" where
  "FileTracker_wholeFilePath ft hsh0 shard timestamp =
     (case FileTracker_validateHash ft hsh0 of
        Inl err \<Rightarrow> Inl err
      | Inr (hsh, diskPart) \<Rightarrow>
          Inr (Join (path ft)
                 (fmt_02x diskPart @ ''/'' @ fmt_032x_string hsh @ ''.'' @ fmt_02x shard
                    @ ''.'' @ fmt_019d timestamp)))"

definition FileTracker_TempFile :: "io_env \<Rightarrow> FileTracker \<Rightarrow> string \<Rightarrow> int
    \<Rightarrow> error + AtomicFileWriter" where
  "FileTracker_TempFile env ft hsh sizeHint =
     (case FileTracker_wholeFileDir ft hsh of
        Inl err \<Rightarrow> Inl err
      | Inr dir \<Rightarrow> NewAtomicFileWriter env (tempPath ft) dir)"

subsection \<open>\<^verbatim>\<open>FileTracker.Commit\<close>\<close>

text \<open>
  The block run when the incoming metahash differs from the stored one: the new
  metahash and metadata and the log, or the error returned to the caller.
\<close>

definition Commit_reconcile :: "'s codec \<Rightarrow> string list \<Rightarrow> string \<Rightarrow> string \<Rightarrow> string \<Rightarrow> string
    \<Rightarrow> error + (string \<times> string \<times> string list)" where
  "Commit_reconcile cdc lg metahash metadata dbMetahash dbMetadata =
     (if metahash \<noteq> dbMetahash then
        (case json_Unmarshal cdc metadata of
           Inl err \<Rightarrow> Inl err
         | Inr metastore \<Rightarrow>
            (case json_Unmarshal cdc dbMetadata of
               Inl err \<Rightarrow>
                 Inr (metahash, metadata, lg @ [''error decoding metadata from db; discarding''])
             | Inr dbMetastore \<Rightarrow>
                 (let merged = Store_Absorb cdc metastore dbMetastore in
                  case json_Marshal cdc merged of
                    Inl err \<Rightarrow>
                      (case json_Marshal cdc dbMetastore of
                         Inl err2 \<Rightarrow>
                           Inr (metahash, metadata,
                                lg @ [''error reencoding metadata from db; discarding''])
                       | Inr _ \<Rightarrow> Inl err)
                  | Inr newMetadata \<Rightarrow> Inr (Store_Hash cdc merged, newMetadata, lg))))
      else Inr (metahash, metadata, lg))"

text \<open>
  From the computation of the final path to the end: publish the file, insert or update
  the row, commit the transaction, then remove the superseded file.
\<close>

definition Commit_publish :: "io_env \<Rightarrow> FileTracker \<Rightarrow> files \<Rightarrow> AtomicFileWriter \<Rightarrow> nat
    \<Rightarrow> string \<Rightarrow> int \<Rightarrow> int \<Rightarrow> string \<Rightarrow> string \<Rightarrow> string
    \<Rightarrow> error option \<times> FileTracker \<times> files \<times> AtomicFileWriter" where
  "Commit_publish env ft fls f dp hsh shard timestamp metahash metadata removeOlder =
     (case FileTracker_wholeFilePath ft hsh shard timestamp of
        Inl err \<Rightarrow> (Some err, ft, fls, f)
      | Inr pth \<Rightarrow>
         (case Save env fls f pth of
            (Some err, fls1, f1) \<Rightarrow> (Some err, ft, fls1, f1)
          | (None, fls1, f1) \<Rightarrow>
             (case (case exec_err env dp of
                      Some err \<Rightarrow> Inl err
                    | None \<Rightarrow>
                       (if removeOlder = []
                        then insert_files (dbs ft ! dp)
                               \<lparr>row_hash = hsh, row_shard = shard, row_timestamp = timestamp,
                                row_metahash = metahash, row_metadata = metadata\<rparr>
                        else Inr (update_files (dbs ft ! dp) timestamp metahash metadata hsh shard)))
              of
                Inl err \<Rightarrow> (Some err, ft, fls1, f1)
              | Inr d \<Rightarrow>
                 (case commit_err env dp of
                    Some err \<Rightarrow> (Some err, ft, fls1, f1)
                  | None \<Rightarrow>
                     (let ft1 = ft\<lparr>dbs := (dbs ft)[dp := d]\<rparr> in
                      if removeOlder \<noteq> [] then
                        (case Remove env fls1 removeOlder of
                           (Some err2, fls2) \<Rightarrow>
                             (None, ft1\<lparr>logger := logger ft1 @ [''error removing older file'']\<rparr>,
                              fls2, f1)
                         | (None, fls2) \<Rightarrow> (None, ft1, fls2, f1))
                      else (None, ft1, fls1, f1))))))"

text \<open>The transaction, from \<^verbatim>\<open>db.Begin\<close> on; the caller runs the deferred tear-down.\<close>

definition Commit_tx :: "io_env \<Rightarrow> 's codec \<Rightarrow> FileTracker \<Rightarrow> files \<Rightarrow> AtomicFileWriter \<Rightarrow> nat
    \<Rightarrow> string \<Rightarrow> int \<Rightarrow> int \<Rightarrow> string \<Rightarrow> string
    \<Rightarrow> error option \<times> FileTracker \<times> files \<times> AtomicFileWriter" where
  "Commit_tx env cdc ft fls f dp hsh shard timestamp metahash metadata =
     (case begin_err env dp of
        Some err \<Rightarrow> (Some err, ft, fls, f)
      | None \<Rightarrow>
         (case query_err env dp of
            Some err \<Rightarrow> (Some err, ft, fls, f)
          | None \<Rightarrow>
             (case (if rows_err env dp \<noteq> None then [] else select_files (dbs ft ! dp) hsh shard) of
                [] \<Rightarrow>
                  (case rows_err env dp of
                     Some err \<Rightarrow> (Some err, ft, fls, f)
                   | None \<Rightarrow>
                       Commit_publish env ft fls f dp hsh shard timestamp metahash metadata [])
              | r # _ \<Rightarrow>
                  (case scan_err env dp of
                     Some err \<Rightarrow> (Some err, ft, fls, f)
                   | None \<Rightarrow>
                      (let dbTimestamp = row_timestamp r;
                           dbMetahash = row_metahash r;
                           dbMetadata = row_metadata r
                       in if dbTimestamp \<ge> timestamp then (None, ft, fls, f)
                          else
                            (case FileTracker_wholeFilePath ft hsh shard dbTimestamp of
                               Inl err \<Rightarrow> (Some err, ft, fls, f)
                             | Inr removeOlder \<Rightarrow>
                                (case Commit_reconcile cdc (logger ft) metahash metadata
                                        dbMetahash dbMetadata of
                                   Inl err \<Rightarrow> (Some err, ft, fls, f)
                                 | Inr (metahash1, metadata1, lg) \<Rightarrow>
                                     Commit_publish env (ft\<lparr>logger := lg\<rparr>) fls f dp hsh shard
                                       timestamp metahash1 metadata1 removeOlder)))))))"

definition FileTracker_Commit :: "io_env \<Rightarrow> 's codec \<Rightarrow> FileTracker \<Rightarrow> files \<Rightarrow> AtomicFileWriter
    \<Rightarrow> string \<Rightarrow> int \<Rightarrow> int \<Rightarrow> string \<Rightarrow> string
    \<Rightarrow> error option outcome \<times> FileTracker \<times> files \<times> AtomicFileWriter" where
  "FileTracker_Commit env cdc ft fls f hsh0 shard timestamp metahash metadata =
     (case FileTracker_validateHash ft hsh0 of
        Inl err \<Rightarrow> (Return (Some err), ft, fls, f)
      | Inr (hsh, diskPart) \<Rightarrow>
         (if \<not> nat diskPart < length (dbs ft)
          then (Panic ''index out of range'', ft, fls, Abandon f)
          else
            (case Commit_tx env cdc ft fls f (nat diskPart) hsh shard timestamp metahash metadata of
               (err, ft1, fls1, f1) \<Rightarrow> (Return err, ft1, fls1, Abandon f1))))"


subsection \<open>\<^verbatim>\<open>FileTracker.Lookup\<close> and \<^verbatim>\<open>FileTracker.List\<close>\<close>

text \<open>
  The result of \<^verbatim>\<open>Lookup\<close> is the tuple of its five named results, the error last.
\<close>

definition FileTracker_Lookup :: "io_env \<Rightarrow> FileTracker \<Rightarrow> string \<Rightarrow> int
    \<Rightarrow> (int \<times> string \<times> string \<times> string \<times> error option) outcome" where
  "FileTracker_Lookup env ft hsh0 shard =
     (case FileTracker_validateHash ft hsh0 of
        Inl err \<Rightarrow> Return (0, [], [], [], Some err)
      | Inr (hsh, diskPart) \<Rightarrow>
         (if \<not> nat diskPart < length (dbs ft) then Panic ''index out of range''
          else
            (case query_err env (nat diskPart) of
               Some err \<Rightarrow> Return (0, [], [], [], Some err)
             | None \<Rightarrow>
                (case (if rows_err env (nat diskPart) \<noteq> None then []
                       else select_files (dbs ft ! nat diskPart) hsh shard) of
                   [] \<Rightarrow> Return (0, [], [], [], rows_err env (nat diskPart))
                 | r # _ \<Rightarrow>
                    (let metadata0 = ([] :: string) in
                     if length metadata0 \<noteq> 0 then Panic ''GLH0''
                     else
                       (case scan_err env (nat diskPart) of
                          Some err \<Rightarrow> Return (0, [], [], [], Some err)
                        | None \<Rightarrow>
                           (let timestamp = row_timestamp r;
                                metahash = row_metahash r;
                                metadata = row_metadata r
                            in if length metadata \<noteq> 0 then Panic ''GLH1''
                               else
                                 (case FileTracker_wholeFilePath ft hsh shard timestamp of
                                    Inl err \<Rightarrow> Return (timestamp, metahash, metadata, [], Some err)
                                  | Inr pth \<Rightarrow> Return (timestamp, metahash, metadata, pth, None)))))))))"

definition FileTracker_item :: "files_row \<Rightarrow> FileTrackerItem" where
  "FileTracker_item r =
     \<lparr>Hash = row_hash r, Shard = row_shard r, Timestamp = row_timestamp r,
      Metahash = row_metahash r\<rparr>"

text \<open>The loop of \<^verbatim>\<open>List\<close> over the partitions from \<^verbatim>\<open>diskPart\<close> to \<^verbatim>\<open>stopDiskPart\<close>.\<close>

function FileTracker_List_loop :: "io_env \<Rightarrow> FileTracker \<Rightarrow> string \<Rightarrow> string \<Rightarrow> int \<Rightarrow> int
    \<Rightarrow> FileTrackerItem list \<Rightarrow> (FileTrackerItem list \<times> error option) outcome" where
  "FileTracker_List_loop env ft startHash stopHash diskPart stopDiskPart listing =
     (if diskPart \<le> stopDiskPart then
        (if \<not> (0 \<le> diskPart \<and> nat diskPart < length (dbs ft)) then Panic ''index out of range''
         else
           (case query_err env (nat diskPart) of
              Some err \<Rightarrow> Return ([], Some err)
            | None \<Rightarrow>
               (let rows = (if rows_err env (nat diskPart) \<noteq> None then []
                            else select_between (dbs ft ! nat diskPart) startHash stopHash)
                in if rows \<noteq> [] \<and> scan_err env (nat diskPart) \<noteq> None
                   then Return (listing, scan_err env (nat diskPart))
                   else
                     (let listing1 = listing @ map FileTracker_item rows in
                      case rows_err env (nat diskPart) of
                        Some err \<Rightarrow> Return (listing1, Some err)
                      | None \<Rightarrow>
                          FileTracker_List_loop env ft startHash stopHash (diskPart + 1)
                            stopDiskPart listing1))))
      else Return (listing, None))"
  by pat_completeness auto
termination
  by (relation "measure (\<lambda>(env, ft, startHash, stopHash, diskPart, stopDiskPart, listing).
        nat (stopDiskPart + 1 - diskPart))") auto

declare FileTracker_List_loop.simps [simp del]

definition FileTracker_List :: "io_env \<Rightarrow> FileTracker \<Rightarrow> string \<Rightarrow> string
    \<Rightarrow> (FileTrackerItem list \<times> error option) outcome" where
  "FileTracker_List env ft startHash0 stopHash0 =
     (case FileTracker_validateHash ft startHash0 of
        Inl err \<Rightarrow> Return ([], Some err)
      | Inr (startHash, startDiskPart) \<Rightarrow>
         (case FileTracker_validateHash ft stopHash0 of
            Inl err \<Rightarrow> Return ([], Some err)
          | Inr (stopHash, stopDiskPart) \<Rightarrow>
             (if startDiskPart > stopDiskPart
              then Return ([], Some (StartHashGreater startHash stopHash))
              else FileTracker_List_loop env ft startHash stopHash startDiskPart stopDiskPart [])))"

subsection \<open>\<^verbatim>\<open>NewFileTracker\<close> and \<^verbatim>\<open>FileTracker.init\<close>\<close>

text \<open>
  \<^verbatim>\<open>init\<close> on the database of partition \<^verbatim>\<open>dbi\<close>: the table \<^verbatim>\<open>files\<close> is created when
  it is not there. The result is the table the opened handle gives access to.
\<close>

definition FileTracker_init :: "io_env \<Rightarrow> nat \<Rightarrow> error + db" where
  "FileTracker_init env dbi =
     (case begin_err env dbi of
        Some err \<Rightarrow> Inl err
      | None \<Rightarrow>
         (case query_err env dbi of
            Some err \<Rightarrow> Inl err
          | None \<Rightarrow>
             (let tableExists = (rows_err env dbi = None \<and> on_disk env dbi \<noteq> None) in
              case rows_err env dbi of
                Some err \<Rightarrow> Inl err
              | None \<Rightarrow>
                 (case (if \<not> tableExists then exec_err env dbi else None) of
                    Some err \<Rightarrow> Inl err
                  | None \<Rightarrow>
                     (case commit_err env dbi of
                        Some err \<Rightarrow> Inl err
                      | None \<Rightarrow> Inr (case on_disk env dbi of None \<Rightarrow> [] | Some d \<Rightarrow> d))))))"

text \<open>\<^verbatim>\<open>1<<diskPartPower\<close> as a 64-bit \<^verbatim>\<open>int\<close>.\<close>

definition shift_one :: "64 word \<Rightarrow> int" where
  "shift_one p = sint (push_bit (unat p) (1 :: 64 word))"

text \<open>
  \<^verbatim>\<open>make([]*sql.DB, n)\<close> panics when \<^verbatim>\<open>n\<close> is negative or when the \<^verbatim>\<open>8 * n\<close> bytes of
  the slice exceed the largest allocation of a 64-bit platform, \<open>2 ^ 48\<close> bytes. (A
  smaller length can still exhaust the memory of the machine; that is not modelled.)
\<close>

definition make_panics :: "int \<Rightarrow> bool" where
  "make_panics n = (n < 0 \<or> 2 ^ 45 < n)"

text \<open>The file name given to \<^verbatim>\<open>sql.Open\<close> for the database of partition \<^verbatim>\<open>i\<close>.\<close>

definition index_path :: "string \<Rightarrow> int \<Rightarrow> string" where
  "index_path pth i = Join pth (''filetracker_'' @ fmt_02x i @ ''.sqlite3'')"

text \<open>
  The loop of \<^verbatim>\<open>NewFileTracker\<close> over the partitions, from \<^verbatim>\<open>i\<close> on. \<^verbatim>\<open>ds\<close> are the
  databases \<^verbatim>\<open>ft.dbs[0..i-1]\<close> opened so far; the second component threads the handles
  that are open, by partition, and is what is left open when the function returns.
\<close>

function NewFileTracker_loop :: "io_env \<Rightarrow> string \<Rightarrow> int \<Rightarrow> int \<Rightarrow> db list \<Rightarrow> nat list
    \<Rightarrow> (error + db list) \<times> nat list" where
  "NewFileTracker_loop env pth n i ds opened =
     (if 0 \<le> i \<and> i < n then
        (case mkdirall_err env (Join pth (fmt_02x i)) of
           Some err \<Rightarrow> (Inl err, opened)
         | None \<Rightarrow>
            (case open_err env (index_path pth i) of
               Some err \<Rightarrow> (Inl err, filter (\<lambda>j. \<not> int j < i) opened)
             | None \<Rightarrow>
                (case FileTracker_init env (nat i) of
                   Inl err \<Rightarrow> (Inl err, filter (\<lambda>j. \<not> int j < i) (opened @ [nat i]))
                 | Inr d \<Rightarrow>
                     NewFileTracker_loop env pth n (i + 1) (ds @ [d]) (opened @ [nat i]))))
      else (Inr ds, opened))"
  by pat_completeness auto
termination
  by (relation "measure (\<lambda>(env, pth, n, i, ds, opened). nat (n - i))") auto

declare NewFileTracker_loop.simps [simp del]

definition NewFileTracker :: "io_env \<Rightarrow> string \<Rightarrow> 64 word \<Rightarrow> string list
    \<Rightarrow> (error + FileTracker) outcome \<times> nat list" where
  "NewFileTracker env pth p lg =
     (if make_panics (shift_one p) then (Panic ''makeslice: len out of range'', [])
      else
        (case mkdirall_err env (Join pth ''temp'') of
           Some err \<Rightarrow> (Return (Inl err), [])
         | None \<Rightarrow>
            (case NewFileTracker_loop env pth (shift_one p) 0 [] [] of
               (Inl err, opened) \<Rightarrow> (Return (Inl err), opened)
             | (Inr ds, opened) \<Rightarrow>
                 (Return (Inr \<lparr>path = pth, diskPartPower = p, tempPath = Join pth ''temp'',
                               dbs = ds, logger = lg\<rparr>), opened))))"

subsection \<open>The second copy, \<^verbatim>\<open>fileTracker\<close>: validateHash, wholeFileDir, wholeFilePath, tempFile\<close>

definition fileTracker_validateHash :: "fileTracker \<Rightarrow> string \<Rightarrow> error + (string \<times> int)" where
  "fileTracker_validateHash ft hsh0 =
     (let hsh = ToLower hsh0 in
      if length hsh \<noteq> 32 then Inl (InvalidHashLength hsh (length hsh))
      else
        (case DecodeString hsh of
           Inl err \<Rightarrow> Inl (InvalidHashDecoding hsh)
         | Inr hashBytes \<Rightarrow>
            (case hashBytes of
               [] \<Rightarrow> Inl (External ''index out of range'')
             | b # _ \<Rightarrow> Inr (hsh, uint (drop_bit (unat (8 - diskPartPower ft)) b)))))"

definition fileTracker_wholeFileDir :: "fileTracker \<Rightarrow> string \<Rightarrow> error + string" where
  "fileTracker_wholeFileDir ft hsh0 =
     (case fileTracker_validateHash ft hsh0 of
        Inl err \<Rightarrow> Inl err
      | Inr (hsh, diskPart) \<Rightarrow> Inr (Join (path ft) (fmt_02x diskPart)))"

definition fileTracker_wholeFilePath :: "fileTracker \<Rightarrow> string \<Rightarrow> int \<Rightarrow> int \<Rightarrow> error + string" where
  "fileTracker_wholeFilePath ft hsh0 shard timestamp =
     (case fileTracker_validateHash ft hsh0 of
        Inl err \<Rightarrow> Inl err
      | Inr (hsh, diskPart) \<Rightarrow>
          Inr (Join (path ft)
                 (fmt_02x diskPart @ ''/'' @ fmt_032x_string hsh @ ''.'' @ fmt_02x shard
                    @ ''.'' @ fmt_019d timestamp)))"

definition fileTracker_tempFile :: "io_env \<Rightarrow> fileTracker \<Rightarrow> string \<Rightarrow> int
    \<Rightarrow> error + AtomicFileWriter" where
  "fileTracker_tempFile env ft hsh sizeHint =
     (case fileTracker_wholeFileDir ft hsh of
        Inl err \<Rightarrow> Inl err
      | Inr dir \<Rightarrow> NewAtomicFileWriter env (tempPath ft) dir)"

subsection \<open>\<^verbatim>\<open>fileTracker.commit\<close>\<close>

text \<open>
  The block run when the incoming metahash differs from the stored one: the new
  metahash and metadata and the log, or the error returned to the caller.
\<close>

definition commit_reconcile :: "'s codec \<Rightarrow> string list \<Rightarrow> string \<Rightarrow> string \<Rightarrow> string \<Rightarrow> string
    \<Rightarrow> error + (string \<times> string \<times> string list)" where
  "commit_reconcile cdc lg metahash metadata dbMetahash dbMetadata =
     (if metahash \<noteq> dbMetahash then
        (case json_Unmarshal cdc metadata of
           Inl err \<Rightarrow> Inl err
         | Inr metastore \<Rightarrow>
            (case json_Unmarshal cdc dbMetadata of
               Inl err \<Rightarrow>
                 Inr (metahash, metadata, lg @ [''error decoding metadata from db; discarding''])
             | Inr dbMetastore \<Rightarrow>
                 (let merged = Store_Absorb cdc metastore dbMetastore in
                  case json_Marshal cdc merged of
                    Inl err \<Rightarrow>
                      (case json_Marshal cdc dbMetastore of
                         Inl err2 \<Rightarrow>
                           Inr (metahash, metadata,
                                lg @ [''error reencoding metadata from db; discarding''])
                       | Inr _ \<Rightarrow> Inl err)
                  | Inr newMetadata \<Rightarrow> Inr (Store_Hash cdc merged, newMetadata, lg))))
      else Inr (metahash, metadata, lg))"

text \<open>
  From the computation of the final path to the end: publish the file, insert or update
  the row, commit the transaction, then remove the superseded file.
\<close>

definition commit_publish :: "io_env \<Rightarrow> fileTracker \<Rightarrow> files \<Rightarrow> AtomicFileWriter \<Rightarrow> nat
    \<Rightarrow> string \<Rightarrow> int \<Rightarrow> int \<Rightarrow> string \<Rightarrow> string \<Rightarrow> string
    \<Rightarrow> error option \<times> fileTracker \<times> files \<times> AtomicFileWriter" where
  "commit_publish env ft fls f dp hsh shard timestamp metahash metadata removeOlder =
     (case fileTracker_wholeFilePath ft hsh shard timestamp of
        Inl err \<Rightarrow> (Some err, ft, fls, f)
      | Inr pth \<Rightarrow>
         (case Save env fls f pth of
            (Some err, fls1, f1) \<Rightarrow> (Some err, ft, fls1, f1)
          | (None, fls1, f1) \<Rightarrow>
             (case (case exec_err env dp of
                      Some err \<Rightarrow> Inl err
                    | None \<Rightarrow>
                       (if removeOlder = []
                        then insert_files (dbs ft ! dp)
                               \<lparr>row_hash = hsh, row_shard = shard, row_timestamp = timestamp,
                                row_metahash = metahash, row_metadata = metadata\<rparr>
                        else Inr (update_files (dbs ft ! dp) timestamp metahash metadata hsh shard)))
              of
                Inl err \<Rightarrow> (Some err, ft, fls1, f1)
              | Inr d \<Rightarrow>
                 (case commit_err env dp of
                    Some err \<Rightarrow> (Some err, ft, fls1, f1)
                  | None \<Rightarrow>
                     (let ft1 = ft\<lparr>dbs := (dbs ft)[dp := d]\<rparr> in
                      if removeOlder \<noteq> [] then
                        (case Remove env fls1 removeOlder of
                           (Some err2, fls2) \<Rightarrow>
                             (None, ft1\<lparr>logger := logger ft1 @ [''error removing older file'']\<rparr>,
                              fls2, f1)
                         | (None, fls2) \<Rightarrow> (None, ft1, fls2, f1))
                      else (None, ft1, fls1, f1))))))"

text \<open>The transaction, from \<^verbatim>\<open>db.Begin\<close> on; the caller runs the deferred tear-down.\<close>

definition commit_tx :: "io_env \<Rightarrow> 's codec \<Rightarrow> fileTracker \<Rightarrow> files \<Rightarrow> AtomicFileWriter \<Rightarrow> nat
    \<Rightarrow> string \<Rightarrow> int \<Rightarrow> int \<Rightarrow> string \<Rightarrow> string
    \<Rightarrow> error option \<times> fileTracker \<times> files \<times> AtomicFileWriter" where
  "commit_tx env cdc ft fls f dp hsh shard timestamp metahash metadata =
     (case begin_err env dp of
        Some err \<Rightarrow> (Some err, ft, fls, f)
      | None \<Rightarrow>
         (case query_err env dp of
            Some err \<Rightarrow> (Some err, ft, fls, f)
          | None \<Rightarrow>
             (case (if rows_err env dp \<noteq> None then [] else select_files (dbs ft ! dp) hsh shard) of
                [] \<Rightarrow>
                  (case rows_err env dp of
                     Some err \<Rightarrow> (Some err, ft, fls, f)
                   | None \<Rightarrow>
                       commit_publish env ft fls f dp hsh shard timestamp metahash metadata [])
              | r # _ \<Rightarrow>
                  (case scan_err env dp of
                     Some err \<Rightarrow> (Some err, ft, fls, f)
                   | None \<Rightarrow>
                      (let dbTimestamp = row_timestamp r;
                           dbMetahash = row_metahash r;
                           dbMetadata = row_metadata r
                       in if dbTimestamp \<ge> timestamp then (None, ft, fls, f)
                          else
                            (case fileTracker_wholeFilePath ft hsh shard dbTimestamp of
                               Inl err \<Rightarrow> (Some err, ft, fls, f)
                             | Inr removeOlder \<Rightarrow>
                                (case commit_reconcile cdc (logger ft) metahash metadata
                                        dbMetahash dbMetadata of
                                   Inl err \<Rightarrow> (Some err, ft, fls, f)
                                 | Inr (metahash1, metadata1, lg) \<Rightarrow>
                                     commit_publish env (ft\<lparr>logger := lg\<rparr>) fls f dp hsh shard
                                       timestamp metahash1 metadata1 removeOlder)))))))"

definition fileTracker_commit :: "io_env \<Rightarrow> 's codec \<Rightarrow> fileTracker \<Rightarrow> files \<Rightarrow> AtomicFileWriter
    \<Rightarrow> string \<Rightarrow> int \<Rightarrow> int \<Rightarrow> string \<Rightarrow> string
    \<Rightarrow> error option outcome \<times> fileTracker \<times> files \<times> AtomicFileWriter" where
  "fileTracker_commit env cdc ft fls f hsh0 shard timestamp metahash metadata =
     (case fileTracker_validateHash ft hsh0 of
        Inl err \<Rightarrow> (Return (Some err), ft, fls, f)
      | Inr (hsh, diskPart) \<Rightarrow>
         (if \<not> nat diskPart < length (dbs ft)
          then (Panic ''index out of range'', ft, fls, Abandon f)
          else
            (case commit_tx env cdc ft fls f (nat diskPart) hsh shard timestamp metahash metadata of
               (err, ft1, fls1, f1) \<Rightarrow> (Return err, ft1, fls1, Abandon f1))))"


subsection \<open>\<^verbatim>\<open>fileTracker.lookup\<close> and \<^verbatim>\<open>fileTracker.list\<close>\<close>

text \<open>
  The result of \<^verbatim>\<open>lookup\<close> is the tuple of its five named results, the error last.
\<close>

definition fileTracker_lookup :: "io_env \<Rightarrow> fileTracker \<Rightarrow> string \<Rightarrow> int
    \<Rightarrow> (int \<times> string \<times> string \<times> string \<times> error option) outcome" where
  "fileTracker_lookup env ft hsh0 shard =
     (case fileTracker_validateHash ft hsh0 of
        Inl err \<Rightarrow> Return (0, [], [], [], Some err)
      | Inr (hsh, diskPart) \<Rightarrow>
         (if \<not> nat diskPart < length (dbs ft) then Panic ''index out of range''
          else
            (case query_err env (nat diskPart) of
               Some err \<Rightarrow> Return (0, [], [], [], Some err)
             | None \<Rightarrow>
                (case (if rows_err env (nat diskPart) \<noteq> None then []
                       else select_files (dbs ft ! nat diskPart) hsh shard) of
                   [] \<Rightarrow> Return (0, [], [], [], rows_err env (nat diskPart))
                 | r # _ \<Rightarrow>
                    (case scan_err env (nat diskPart) of
                       Some err \<Rightarrow> Return (0, [], [], [], Some err)
                     | None \<Rightarrow>
                        (let timestamp = row_timestamp r;
                             metahash = row_metahash r;
                             metadata = row_metadata r
                         in case fileTracker_wholeFilePath ft hsh shard timestamp of
                              Inl err \<Rightarrow> Return (timestamp, metahash, metadata, [], Some err)
                            | Inr pth \<Rightarrow> Return (timestamp, metahash, metadata, pth, None)))))))"

definition fileTracker_item :: "files_row \<Rightarrow> fileTrackerItem" where
  "fileTracker_item r =
     \<lparr>item_hash = row_hash r, item_shard = row_shard r, item_timestamp = row_timestamp r,
      item_metahash = row_metahash r\<rparr>"

text \<open>The loop of \<^verbatim>\<open>list\<close> over the partitions from \<^verbatim>\<open>diskPart\<close> to \<^verbatim>\<open>stopDiskPart\<close>.\<close>

function fileTracker_list_loop :: "io_env \<Rightarrow> fileTracker \<Rightarrow> string \<Rightarrow> string \<Rightarrow> int \<Rightarrow> int
    \<Rightarrow> fileTrackerItem list \<Rightarrow> (fileTrackerItem list \<times> error option) outcome" where
  "fileTracker_list_loop env ft startHash stopHash diskPart stopDiskPart listing =
     (if diskPart \<le> stopDiskPart then
        (if \<not> (0 \<le> diskPart \<and> nat diskPart < length (dbs ft)) then Panic ''index out of range''
         else
           (case query_err env (nat diskPart) of
              Some err \<Rightarrow> Return ([], Some err)
            | None \<Rightarrow>
               (let rows = (if rows_err env (nat diskPart) \<noteq> None then []
                            else select_between (dbs ft ! nat diskPart) startHash stopHash)
                in if rows \<noteq> [] \<and> scan_err env (nat diskPart) \<noteq> None
                   then Return (listing, scan_err env (nat diskPart))
                   else
                     (let listing1 = listing @ map fileTracker_item rows in
                      case rows_err env (nat diskPart) of
                        Some err \<Rightarrow> Return (listing1, Some err)
                      | None \<Rightarrow>
                          fileTracker_list_loop env ft startHash stopHash (diskPart + 1)
                            stopDiskPart listing1))))
      else Return (listing, None))"
  by pat_completeness auto
termination
  by (relation "measure (\<lambda>(env, ft, startHash, stopHash, diskPart, stopDiskPart, listing).
        nat (stopDiskPart + 1 - diskPart))") auto

declare fileTracker_list_loop.simps [simp del]

definition fileTracker_list :: "io_env \<Rightarrow> fileTracker \<Rightarrow> string \<Rightarrow> string
    \<Rightarrow> (fileTrackerItem list \<times> error option) outcome" where
  "fileTracker_list env ft startHash0 stopHash0 =
     (case fileTracker_validateHash ft startHash0 of
        Inl err \<Rightarrow> Return ([], Some err)
      | Inr (startHash, startDiskPart) \<Rightarrow>
         (case fileTracker_validateHash ft stopHash0 of
            Inl err \<Rightarrow> Return ([], Some err)
          | Inr (stopHash, stopDiskPart) \<Rightarrow>
             (if startDiskPart > stopDiskPart
              then Return ([], Some (StartHashGreater startHash stopHash))
              else fileTracker_list_loop env ft startHash stopHash startDiskPart stopDiskPart [])))"

subsection \<open>\<^verbatim>\<open>newFileTracker\<close> and \<^verbatim>\<open>fileTracker.init\<close>\<close>

text \<open>
  \<^verbatim>\<open>init\<close> on the database of partition \<^verbatim>\<open>dbi\<close>: the table \<^verbatim>\<open>files\<close> is created when
  it is not there. The result is the table the opened handle gives access to.
\<close>

definition fileTracker_init :: "io_env \<Rightarrow> nat \<Rightarrow> error + db" where
  "fileTracker_init env dbi =
     (case begin_err env dbi of
        Some err \<Rightarrow> Inl err
      | None \<Rightarrow>
         (case query_err env dbi of
            Some err \<Rightarrow> Inl err
          | None \<Rightarrow>
             (let tableExists = (rows_err env dbi = None \<and> on_disk env dbi \<noteq> None) in
              case rows_err env dbi of
                Some err \<Rightarrow> Inl err
              | None \<Rightarrow>
                 (case (if \<not> tableExists then exec_err env dbi else None) of
                    Some err \<Rightarrow> Inl err
                  | None \<Rightarrow>
                     (case commit_err env dbi of
                        Some err \<Rightarrow> Inl err
                      | None \<Rightarrow> Inr (case on_disk env dbi of None \<Rightarrow> [] | Some d \<Rightarrow> d))))))"

text \<open>
  The loop of \<^verbatim>\<open>newFileTracker\<close> over the partitions, from \<^verbatim>\<open>i\<close> on. \<^verbatim>\<open>ds\<close> are the
  databases \<^verbatim>\<open>ft.dbs[0..i-1]\<close> opened so far; the second component threads the handles
  that are open, by partition, and is what is left open when the function returns.
\<close>

function newFileTracker_loop :: "io_env \<Rightarrow> string \<Rightarrow> int \<Rightarrow> int \<Rightarrow> db list \<Rightarrow> nat list
    \<Rightarrow> (error + db list) \<times> nat list" where
  "newFileTracker_loop env pth n i ds opened =
     (if 0 \<le> i \<and> i < n then
        (case mkdirall_err env (Join pth (fmt_02x i)) of
           Some err \<Rightarrow> (Inl err, opened)
         | None \<Rightarrow>
            (case open_err env (index_path pth i) of
               Some err \<Rightarrow> (Inl err, filter (\<lambda>j. \<not> int j < i) opened)
             | None \<Rightarrow>
                (case fileTracker_init env (nat i) of
                   Inl err \<Rightarrow> (Inl err, filter (\<lambda>j. \<not> int j < i) (opened @ [nat i]))
                 | Inr d \<Rightarrow>
                     newFileTracker_loop env pth n (i + 1) (ds @ [d]) (opened @ [nat i]))))
      else (Inr ds, opened))"
  by pat_completeness auto
termination
  by (relation "measure (\<lambda>(env, pth, n, i, ds, opened). nat (n - i))") auto

declare newFileTracker_loop.simps [simp del]

definition defaultDiskPartPower :: "64 word" where
  "defaultDiskPartPower = 6"

definition newFileTracker :: "io_env \<Rightarrow> string \<Rightarrow> string list
    \<Rightarrow> (error + fileTracker) outcome \<times> nat list" where
  "newFileTracker env pth lg =
     (if make_panics (shift_one defaultDiskPartPower) then (Panic ''makeslice: len out of range'', [])
      else
        (case mkdirall_err env (Join pth ''temp'') of
           Some err \<Rightarrow> (Return (Inl err), [])
         | None \<Rightarrow>
            (case newFileTracker_loop env pth (shift_one defaultDiskPartPower) 0 [] [] of
               (Inl err, opened) \<Rightarrow> (Return (Inl err), opened)
             | (Inr ds, opened) \<Rightarrow>
                 (Return (Inr \<lparr>path = pth, diskPartPower = defaultDiskPartPower,
                               tempPath = Join pth ''temp'', dbs = ds, logger = lg\<rparr>), opened))))"

subsection \<open>Predicates used in the statements\<close>

text \<open>A hexadecimal digit of either case; a hash is a string of exactly 32 of them.\<close>

definition hexchar :: "char \<Rightarrow> bool" where
  "hexchar c = (fromHexChar c \<noteq> None)"

definition is_hash :: "string \<Rightarrow> bool" where
  "is_hash s = (length s = 32 \<and> list_all hexchar s)"

text \<open>A path element that \<^verbatim>\<open>path.Clean\<close> keeps as it is.\<close>

definition plain :: "string \<Rightarrow> bool" where
  "plain e = (CHR ''/'' \<notin> set e \<and> e \<noteq> [] \<and> e \<noteq> ''.'' \<and> e \<noteq> ''..'')"

text \<open>
  A tracker as the constructors build it: the partition power is between 1 and 8 and
  there is one database for each of the \<open>2 ^ diskPartPower\<close> partitions.
\<close>

definition tracker_ok :: "FileTracker \<Rightarrow> bool" where
  "tracker_ok ft =
     (1 \<le> diskPartPower ft \<and> diskPartPower ft \<le> 8
      \<and> length (dbs ft) = 2 ^ unat (diskPartPower ft))"

text \<open>
  Every row is kept in the database of the partition of its hash, under the lower-case
  form of the hash, as \<^verbatim>\<open>Commit\<close> stores it.
\<close>

definition partitioned :: "FileTracker \<Rightarrow> bool" where
  "partitioned ft =
     (\<forall>k<length (dbs ft).
        list_all (\<lambda>r. FileTracker_validateHash ft (row_hash r) = Inr (row_hash r, int k))
          (dbs ft ! k))"

text \<open>The rows of a table with a hash between two bounds, both included.\<close>

definition in_range :: "string \<Rightarrow> string \<Rightarrow> files_row \<Rightarrow> bool" where
  "in_range startHash stopHash r =
     (bytes_le startHash (row_hash r) \<and> bytes_le (row_hash r) stopHash)"

text \<open>The outside world in which no step fails, on a disk with no index yet.\<close>

definition quiet :: io_env where
  "quiet =
     \<lparr>begin_err = (\<lambda>_. None), query_err = (\<lambda>_. None), rows_err = (\<lambda>_. None),
      scan_err = (\<lambda>_. None), exec_err = (\<lambda>_. None), commit_err = (\<lambda>_. None),
      save_err = (\<lambda>_. None), remove_err = (\<lambda>_. None), tempfile_err = (\<lambda>_. None),
      mkdirall_err = (\<lambda>_. None), open_err = (\<lambda>_. None), on_disk = (\<lambda>_. None)\<rparr>"

text \<open>Reading a decimal number back, to show that the printed timestamps are distinct.\<close>

definition digit_val :: "char \<Rightarrow> nat" where
  "digit_val c = of_char c - 48"

definition dec_val :: "string \<Rightarrow> nat" where
  "dec_val s = foldl (\<lambda>a c. 10 * a + digit_val c) 0 s"

definition dec_parse :: "string \<Rightarrow> int" where
  "dec_parse s =
     (case s of
        [] \<Rightarrow> 0
      | c # r \<Rightarrow> (if c = CHR ''-'' then - int (dec_val r) else int (dec_val s)))"

text \<open>
  The items of the two copies differ in the names of their fields only; a listing of
  the first copy is read as a listing of the second field by field.
\<close>

definition as_fileTrackerItem :: "FileTrackerItem \<Rightarrow> fileTrackerItem" where
  "as_fileTrackerItem x =
     \<lparr>item_hash = Hash x, item_shard = Shard x, item_timestamp = Timestamp x,
      item_metahash = Metahash x\<rparr>"

definition as_fileTracker_listing :: "(FileTrackerItem list \<times> error option) outcome
    \<Rightarrow> (fileTrackerItem list \<times> error option) outcome" where
  "as_fileTracker_listing res =
     (case res of
        Return (listing, err) \<Rightarrow> Return (map as_fileTrackerItem listing, err)
      | Panic msg \<Rightarrow> Panic msg)"

text \<open>The error \<^verbatim>\<open>validateHash\<close> returns for a string that is not a hash.\<close>

definition hash_error :: "string \<Rightarrow> error" where
  "hash_error s =
     (if length (ToLower s) \<noteq> 32 then InvalidHashLength (ToLower s) (length (ToLower s))
      else InvalidHashDecoding (ToLower s))"

subsection \<open>Concrete inputs for the examples\<close>

text \<open>A tracker of 64 partitions on an empty disk, and three hashes.\<close>

definition example_tracker :: FileTracker where
  "example_tracker =
     \<lparr>path = ''/srv/node/d1'', diskPartPower = 6, tempPath = ''/srv/node/d1/temp'',
      dbs = replicate 64 [], logger = []\<rparr>"

definition hash_00 :: string where
  "hash_00 = ''00000000000000000000000000000000''"

definition hash_7f :: string where
  "hash_7f = ''7fffffffffffffffffffffffffffffff''"

definition hash_ff :: string where
  "hash_ff = ''ffffffffffffffffffffffffffffffff''"

text \<open>
  An instance of the metadata store, to run the examples: the metadata is a flat JSON
  object of strings, written without spaces and escapes, and a store is the list of
  its key/value pairs. Any other text does not decode. \<^verbatim>\<open>Absorb\<close> keeps the pairs of the
  receiving store and adds those of the other store under keys it does not have. The
  encoder of this instance refuses a store that holds the value \<^verbatim>\<open>NaN\<close>, as the
  \<^verbatim>\<open>MarshalJSON\<close> method of a value may.
\<close>

datatype json_state =
    J_start | J_open | J_key string | J_colon string | J_value_start string
  | J_value string string | J_after | J_comma | J_done | J_fail

fun json_step :: "json_state \<times> (string \<times> string) list \<Rightarrow> char
    \<Rightarrow> json_state \<times> (string \<times> string) list" where
  "json_step (J_start, ps) c = (if c = CHR ''{'' then (J_open, ps) else (J_fail, ps))"
| "json_step (J_open, ps) c =
     (if c = CHR 0x22 then (J_key [], ps)
      else if c = CHR ''}'' then (J_done, ps) else (J_fail, ps))"
| "json_step (J_key k, ps) c =
     (if c = CHR 0x22 then (J_colon k, ps)
      else if c = CHR 0x5C then (J_fail, ps) else (J_key (k @ [c]), ps))"
| "json_step (J_colon k, ps) c = (if c = CHR '':'' then (J_value_start k, ps) else (J_fail, ps))"
| "json_step (J_value_start k, ps) c = (if c = CHR 0x22 then (J_value k [], ps) else (J_fail, ps))"
| "json_step (J_value k v, ps) c =
     (if c = CHR 0x22 then (J_after, ps @ [(k, v)])
      else if c = CHR 0x5C then (J_fail, ps) else (J_value k (v @ [c]), ps))"
| "json_step (J_after, ps) c =
     (if c = CHR '','' then (J_comma, ps)
      else if c = CHR ''}'' then (J_done, ps) else (J_fail, ps))"
| "json_step (J_comma, ps) c = (if c = CHR 0x22 then (J_key [], ps) else (J_fail, ps))"
| "json_step (J_done, ps) c = (J_fail, ps)"
| "json_step (J_fail, ps) c = (J_fail, ps)"

definition json_decode :: "string \<Rightarrow> error + (string \<times> string) list" where
  "json_decode b =
     (case foldl json_step (J_start, []) b of
        (J_done, ps) \<Rightarrow> Inr ps
      | _ \<Rightarrow> Inl (External ''json: cannot decode the metadata''))"

fun json_pairs :: "(string \<times> string) list \<Rightarrow> string" where
  "json_pairs [] = []"
| "json_pairs [(k, v)] = [CHR 0x22] @ k @ [CHR 0x22] @ '':'' @ [CHR 0x22] @ v @ [CHR 0x22]"
| "json_pairs ((k, v) # ps) =
     [CHR 0x22] @ k @ [CHR 0x22] @ '':'' @ [CHR 0x22] @ v @ [CHR 0x22] @ '','' @ json_pairs ps"

definition json_encode :: "(string \<times> string) list \<Rightarrow> error + string" where
  "json_encode st =
     (if list_ex (\<lambda>(k, v). v = ''NaN'') st then Inl (External ''json: unsupported value: NaN'')
      else Inr (''{'' @ json_pairs st @ ''}''))"

definition text_codec :: "(string \<times> string) list codec" where
  "text_codec =
     \<lparr>json_Unmarshal = json_decode,
      json_Marshal = json_encode,
      Store_Absorb = (\<lambda>st other. st @ filter (\<lambda>(k, v). k \<notin> fst ` set st) other),
      Store_Hash = (\<lambda>st. ''#'' @ json_pairs st)\<rparr>"





definition new_writer :: "string \<Rightarrow> AtomicFileWriter" where
  "new_writer content = \<lparr>written = content, status = Writing\<rparr>"

text \<open>The example tracker after a record for \<^verbatim>\<open>hash_7f\<close>, shard 0, was stored.\<close>

definition stored_row :: "int \<Rightarrow> string \<Rightarrow> string \<Rightarrow> files_row" where
  "stored_row timestamp metahash metadata =
     \<lparr>row_hash = hash_7f, row_shard = 0, row_timestamp = timestamp,
      row_metahash = metahash, row_metadata = metadata\<rparr>"

definition tracker_with :: "files_row \<Rightarrow> FileTracker" where
  "tracker_with r = example_tracker\<lparr>dbs := (dbs example_tracker)[31 := [r]]\<rparr>"

text \<open>An outside world in which creating the directory of partition 1 fails.\<close>

definition mkdir_01_fails :: io_env where
  "mkdir_01_fails =
     quiet\<lparr>mkdirall_err :=
       (\<lambda>p. if p = ''/srv/node/d1/01'' then Some (External ''mkdir: permission denied'')
            else None)\<rparr>"

text \<open>An outside world in which opening the database of partition 1 fails.\<close>

definition open_01_fails :: io_env where
  "open_01_fails =
     quiet\<lparr>open_err :=
       (\<lambda>p. if p = ''/srv/node/d1/filetracker_01.sqlite3''
            then Some (External ''unable to open database file'') else None)\<rparr>"

text \<open>The blob paths of \<^verbatim>\<open>hash_7f\<close>, shard 0, for the timestamps 0, 1 and 2.\<close>

definition blob_7f_0 :: string where
  "blob_7f_0 = ''/srv/node/d1/1f/3766666666666666666666666666666666666666666666666666666666666666.00.0000000000000000000''"

definition blob_7f_1 :: string where
  "blob_7f_1 = ''/srv/node/d1/1f/3766666666666666666666666666666666666666666666666666666666666666.00.0000000000000000001''"

definition blob_7f_2 :: string where
  "blob_7f_2 = ''/srv/node/d1/1f/3766666666666666666666666666666666666666666666666666666666666666.00.0000000000000000002''"

text \<open>
  The example tracker holding one record for each of the hashes \<^verbatim>\<open>00...0\<close>,
  \<^verbatim>\<open>7f...f\<close> and \<^verbatim>\<open>ff...f\<close>, in the partitions 0, 31 and 63.
\<close>

definition row_of :: "string \<Rightarrow> files_row" where
  "row_of hsh =
     \<lparr>row_hash = hsh, row_shard = 0, row_timestamp = 1, row_metahash = ''#a'',
      row_metadata = ''a''\<rparr>"

definition three_records :: FileTracker where
  "three_records =
     example_tracker
       \<lparr>dbs := [[row_of hash_00]] @ replicate 30 [] @ [[row_of hash_7f]] @ replicate 31 []
                @ [[row_of hash_ff]]\<rparr>"

section \<open>Properties of the library functions\<close>

lemma clean_examples:
  "Clean ''/srv//node/./d1/../d2/'' = ''/srv/node/d2''"
  "Clean ''a/../../b'' = ''../b''"
  "Clean ''/..'' = ''/''"
  "Clean ''a/..'' = ''.''"
  "Join ''/srv'' ''3f/x.00.1'' = ''/srv/3f/x.00.1''"
  by (simp_all add: Clean_def Join_def clean_step_def)

subsection \<open>Hash validation\<close>

lemma fromHexChar_toLower: "fromHexChar (toLower_byte c) = fromHexChar c"
  by (auto simp add: fromHexChar_def toLower_byte_def Let_def)

lemma hexchar_toLower: "hexchar (toLower_byte c) = hexchar c"
  by (simp add: hexchar_def fromHexChar_toLower)

lemma toLower_byte_idem: "toLower_byte (toLower_byte c) = toLower_byte c"
  by (auto simp add: toLower_byte_def)

lemma ToLower_idem: "ToLower (ToLower s) = ToLower s"
  by (simp add: ToLower_def toLower_byte_idem)

lemma length_ToLower: "length (ToLower s) = length s"
  by (simp add: ToLower_def)

lemma hex_ToLower: "list_all hexchar (ToLower s) = list_all hexchar s"
  by (simp add: ToLower_def list_all_iff hexchar_toLower)

lemma is_hash_ToLower: "is_hash (ToLower s) = is_hash s"
  by (simp add: is_hash_def length_ToLower hex_ToLower)

lemma DecodeString_Inr_hex:
  "DecodeString s = Inr bs \<Longrightarrow> list_all hexchar s \<and> length s = 2 * length bs"
  by (induction s arbitrary: bs rule: DecodeString.induct)
     (auto simp add: hexchar_def split: option.splits sum.splits)

lemma DecodeString_hex_Inr:
  "list_all hexchar s \<Longrightarrow> even (length s) \<Longrightarrow> \<exists>bs. DecodeString s = Inr bs"
proof (induction s rule: DecodeString.induct)
  case 1
  then show ?case by simp
next
  case (2 c)
  then show ?case by simp
next
  case (3 c d s)
  from 3(2) obtain a b where ab: "fromHexChar c = Some a" "fromHexChar d = Some b"
    by (auto simp add: hexchar_def)
  from 3(2,3) have "list_all hexchar s" "even (length s)"
    by auto
  with 3(1) ab obtain bs where "DecodeString s = Inr bs"
    by blast
  with ab show ?case by simp
qed

lemma validateHash_Inr_is_hash:
  assumes "FileTracker_validateHash ft s = Inr (h, p)"
  shows "is_hash s" and "h = ToLower s"
  using assms
  by (auto simp add: FileTracker_validateHash_def Let_def is_hash_def length_ToLower hex_ToLower
      split: if_splits sum.splits list.splits dest!: DecodeString_Inr_hex)

lemma is_hash_validateHash:
  assumes "is_hash s"
  shows "\<exists>p. FileTracker_validateHash ft s = Inr (ToLower s, p)"
proof -
  from assms have h: "length (ToLower s) = 32" "list_all hexchar (ToLower s)"
    by (simp_all add: is_hash_def length_ToLower hex_ToLower)
  then obtain bs where bs: "DecodeString (ToLower s) = Inr bs"
    using DecodeString_hex_Inr [of "ToLower s"] by auto
  with h have "length bs = 16"
    using DecodeString_Inr_hex [OF bs] by simp
  then obtain b bs' where "bs = b # bs'"
    by (cases bs) auto
  with h bs show ?thesis
    by (simp add: FileTracker_validateHash_def Let_def)
qed

lemma not_is_hash_validateHash:
  assumes "\<not> is_hash s"
  shows "FileTracker_validateHash ft s =
     Inl (if length (ToLower s) \<noteq> 32 then InvalidHashLength (ToLower s) (length (ToLower s))
          else InvalidHashDecoding (ToLower s))"
proof (cases "FileTracker_validateHash ft s")
  case (Inl e)
  then show ?thesis
    using assms
    by (auto simp add: FileTracker_validateHash_def Let_def is_hash_def length_ToLower hex_ToLower
        split: if_splits sum.splits list.splits dest!: DecodeString_Inr_hex)
next
  case (Inr r)
  then show ?thesis
    using assms validateHash_Inr_is_hash(1) [of ft s "fst r" "snd r"] by simp
qed

lemma validateHash_normal:
  assumes "FileTracker_validateHash ft s = Inr (h, p)"
  shows "FileTracker_validateHash ft h = Inr (h, p)"
  using assms
  by (auto simp add: FileTracker_validateHash_def Let_def ToLower_idem length_ToLower
      split: if_splits sum.splits list.splits)

lemma validateHash_dbs_update [simp]:
  "FileTracker_validateHash (ft\<lparr>dbs := d\<rparr>) s = FileTracker_validateHash ft s"
  by (simp add: FileTracker_validateHash_def Let_def split: sum.splits list.splits)

lemma validateHash_logger_update [simp]:
  "FileTracker_validateHash (ft\<lparr>logger := l\<rparr>) s = FileTracker_validateHash ft s"
  by (simp add: FileTracker_validateHash_def Let_def split: sum.splits list.splits)

lemma wholeFilePath_dbs_update [simp]:
  "FileTracker_wholeFilePath (ft\<lparr>dbs := d\<rparr>) s sh t = FileTracker_wholeFilePath ft s sh t"
  by (simp add: FileTracker_wholeFilePath_def split: sum.splits)

lemma wholeFilePath_logger_update [simp]:
  "FileTracker_wholeFilePath (ft\<lparr>logger := l\<rparr>) s sh t = FileTracker_wholeFilePath ft s sh t"
  by (simp add: FileTracker_wholeFilePath_def split: sum.splits)

lemma drop_bit_byte_bound:
  fixes b :: "8 word"
  assumes "k \<le> 8"
  shows "uint (drop_bit (8 - k) b) < 2 ^ k"
proof -
  have "unat b < 2 ^ 8"
    using unsigned_less [of b, where ?'a = nat] by simp
  also have "(2::nat) ^ 8 = 2 ^ k * 2 ^ (8 - k)"
    using assms by (simp flip: power_add)
  finally have "unat b div 2 ^ (8 - k) < 2 ^ k"
    by (rule less_mult_imp_div_less)
  moreover have "unat (drop_bit (8 - k) b) = drop_bit (8 - k) (unat b)"
    by (rule unat_drop_bit_eq)
  moreover have "drop_bit (8 - k) (unat b) = unat b div 2 ^ (8 - k)"
    by (rule drop_bit_eq_div)
  ultimately have "unat (drop_bit (8 - k) b) < 2 ^ k"
    by simp
  then have "int (unat (drop_bit (8 - k) b)) < 2 ^ k"
    by (metis of_nat_less_iff of_nat_numeral of_nat_power)
  then show ?thesis by simp
qed

lemma validateHash_partition_range:
  assumes "FileTracker_validateHash ft s = Inr (h, p)" and "tracker_ok ft"
  shows "0 \<le> p" and "nat p < length (dbs ft)"
proof -
  from assms(1) obtain b :: "8 word" where p: "p = uint (drop_bit (unat (8 - diskPartPower ft)) b)"
    by (auto simp add: FileTracker_validateHash_def Let_def split: if_splits sum.splits list.splits)
  from assms(2) have le: "diskPartPower ft \<le> 8" and len: "length (dbs ft) = 2 ^ unat (diskPartPower ft)"
    by (simp_all add: tracker_ok_def)
  from le have u: "unat (diskPartPower ft) \<le> 8"
    by (simp add: word_le_nat_alt)
  from le have "unat (8 - diskPartPower ft) = 8 - unat (diskPartPower ft)"
    by (simp add: unat_sub)
  with p have "p < 2 ^ unat (diskPartPower ft)"
    using drop_bit_byte_bound [OF u, of b] by simp
  moreover show "0 \<le> p" using p by simp
  ultimately show "nat p < length (dbs ft)"
    using len by (simp add: nat_less_iff)
qed

subsection \<open>Formatting\<close>

lemma replicate_numeral: "replicate (numeral k) x = x # replicate (pred_numeral k) x"
  by (simp add: numeral_eq_Suc)

lemma digit_char_in: "digit_char d \<in> set ''0123456789abcdef''"
  unfolding digit_char_def by (rule nth_mem) simp

lemma digit_char_not_special:
  "digit_char d \<noteq> CHR ''/''" "digit_char d \<noteq> CHR ''.''" "digit_char d \<noteq> CHR ''-''"
  using digit_char_in [of d] by auto

lemma hex_digits_chars: "c \<in> set (hex_digits n) \<Longrightarrow> c \<in> set ''0123456789abcdef''"
proof (induction n rule: hex_digits.induct)
  case (1 n)
  show ?case
  proof (cases "n < 16")
    case True
    with 1(2) have "c = digit_char n" by (simp add: hex_digits.simps)
    then show ?thesis using digit_char_in by blast
  next
    case False
    with 1(2) have "c \<in> set (hex_digits (n div 16)) \<or> c = digit_char (n mod 16)"
      by (subst (asm) hex_digits.simps) auto
    then show ?thesis using 1(1) [OF False] digit_char_in by blast
  qed
qed

lemma dec_digits_chars: "c \<in> set (dec_digits n) \<Longrightarrow> c \<in> set ''0123456789abcdef''"
proof (induction n rule: dec_digits.induct)
  case (1 n)
  show ?case
  proof (cases "n < 10")
    case True
    with 1(2) have "c = digit_char n" by (simp add: dec_digits.simps)
    then show ?thesis using digit_char_in by blast
  next
    case False
    with 1(2) have "c \<in> set (dec_digits (n div 10)) \<or> c = digit_char (n mod 10)"
      by (subst (asm) dec_digits.simps) auto
    then show ?thesis using 1(1) [OF False] digit_char_in by blast
  qed
qed

lemma hex_digits_not_Nil: "hex_digits n \<noteq> []"
  by (subst hex_digits.simps) simp

lemma dec_digits_not_Nil: "dec_digits n \<noteq> []"
  by (subst dec_digits.simps) simp

lemma fmt_zero_pad_chars:
  "c \<in> set (fmt_zero_pad w neg ds) \<Longrightarrow> c = CHR ''-'' \<or> c = CHR ''0'' \<or> c \<in> set ds"
  by (auto simp add: fmt_zero_pad_def Let_def split: if_splits)

lemma fmt_02x_no_slash: "CHR ''/'' \<notin> set (fmt_02x i)"
  using fmt_zero_pad_chars [of "CHR ''/''" 2 "i < 0" "hex_digits (nat \<bar>i\<bar>)"]
    hex_digits_chars [of "CHR ''/''"]
  by (auto simp add: fmt_02x_def)

lemma fmt_019d_no_slash: "CHR ''/'' \<notin> set (fmt_019d i)"
  using fmt_zero_pad_chars [of "CHR ''/''" 19 "i < 0" "dec_digits (nat \<bar>i\<bar>)"]
    dec_digits_chars [of "CHR ''/''"]
  by (auto simp add: fmt_019d_def)

lemma fmt_02x_no_dot: "CHR ''.'' \<notin> set (fmt_02x i)"
  using fmt_zero_pad_chars [of "CHR ''.''" 2 "i < 0" "hex_digits (nat \<bar>i\<bar>)"]
    hex_digits_chars [of "CHR ''.''"]
  by (auto simp add: fmt_02x_def)

lemma fmt_02x_not_Nil: "fmt_02x i \<noteq> []"
  by (simp add: fmt_02x_def fmt_zero_pad_def hex_digits_not_Nil)

lemma fmt_02x_plain: "plain (fmt_02x i)"
  using fmt_02x_no_slash [of i] fmt_02x_no_dot [of i] fmt_02x_not_Nil [of i]
  by (auto simp add: plain_def)

lemma fmt_032x_string_no_slash: "CHR ''/'' \<notin> set (fmt_032x_string s)"
  by (auto simp add: fmt_032x_string_def hex_of_byte_def Let_def
      digit_char_not_special(1) [symmetric])

lemma length_fmt_032x_string: "32 \<le> length (fmt_032x_string s)"
  by (simp add: fmt_032x_string_def Let_def)

lemma blob_name_plain:
  "plain (fmt_032x_string h @ ''.'' @ fmt_02x sh @ ''.'' @ fmt_019d t)"
proof -
  define n where "n = fmt_032x_string h @ ''.'' @ fmt_02x sh @ ''.'' @ fmt_019d t"
  have "CHR ''/'' \<notin> set n"
    using fmt_032x_string_no_slash [of h] fmt_02x_no_slash [of sh] fmt_019d_no_slash [of t]
    by (simp add: n_def)
  moreover have "32 \<le> length n"
    using length_fmt_032x_string [of h] by (simp add: n_def)
  then have "n \<noteq> []" "n \<noteq> ''.''" "n \<noteq> ''..''"
    by auto
  ultimately show ?thesis
    unfolding plain_def n_def by blast
qed

text \<open>Decimal digits can be read back, so \<^verbatim>\<open>%019d\<close> prints distinct numbers differently.\<close>

lemma digit_val_digit_char: "d < 10 \<Longrightarrow> digit_val (digit_char d) = d"
proof -
  assume "d < 10"
  then have "d \<in> {0, 1, 2, 3, 4, 5, 6, 7, 8, 9}" by auto
  then show ?thesis
    by (auto simp add: digit_val_def digit_char_def)
qed

lemma dec_val_snoc: "dec_val (s @ [c]) = 10 * dec_val s + digit_val c"
  by (simp add: dec_val_def)

lemma dec_val_dec_digits: "dec_val (dec_digits n) = n"
proof (induction n rule: dec_digits.induct)
  case (1 n)
  show ?case
  proof (cases "n < 10")
    case True
    then show ?thesis
      by (subst dec_digits.simps) (simp add: dec_val_def digit_val_digit_char)
  next
    case False
    then have "dec_val (dec_digits n) = 10 * dec_val (dec_digits (n div 10)) + digit_val (digit_char (n mod 10))"
      by (subst dec_digits.simps) (simp add: dec_val_snoc)
    with False 1 show ?thesis
      by (simp add: digit_val_digit_char)
  qed
qed

lemma dec_val_zeros: "dec_val (replicate k (CHR ''0'') @ s) = dec_val s"
proof -
  have "foldl (\<lambda>a c. 10 * a + digit_val c) 0 (replicate k (CHR ''0'')) = 0"
    by (induction k) (simp_all add: digit_val_def)
  then show ?thesis by (simp add: dec_val_def)
qed

lemma dec_parse_fmt_019d: "dec_parse (fmt_019d i) = i"
proof (cases "i < 0")
  case True
  then show ?thesis
    by (simp add: dec_parse_def fmt_019d_def fmt_zero_pad_def dec_val_zeros dec_val_dec_digits)
next
  case False
  let ?s = "replicate (19 - length (dec_digits (nat \<bar>i\<bar>))) (CHR ''0'') @ dec_digits (nat \<bar>i\<bar>)"
  from False have s: "fmt_019d i = ?s"
    by (simp add: fmt_019d_def fmt_zero_pad_def)
  have "?s \<noteq> []" using dec_digits_not_Nil by simp
  then obtain c r where cr: "?s = c # r" by (cases ?s) auto
  then have "c \<in> set ?s" by simp
  then have "c \<noteq> CHR ''-''"
    using dec_digits_chars [of c "nat \<bar>i\<bar>"] by auto
  with cr have "dec_parse ?s = int (dec_val ?s)"
    by (simp add: dec_parse_def)
  with False s show ?thesis
    by (simp add: dec_val_zeros dec_val_dec_digits)
qed

lemma fmt_019d_inj: "fmt_019d i = fmt_019d j \<Longrightarrow> i = j"
  by (metis dec_parse_fmt_019d)

subsection \<open>Paths\<close>

lemma split_slash_not_Nil: "split_slash s \<noteq> []"
  by (induction s) (auto split: list.splits)

lemma split_slash_append: "split_slash (a @ CHR ''/'' # b) = split_slash a @ split_slash b"
proof (induction a)
  case Nil
  show ?case by simp
next
  case (Cons c a)
  obtain e es where "split_slash a = e # es"
    using split_slash_not_Nil [of a] by (cases "split_slash a") auto
  with Cons show ?case by simp
qed

lemma split_slash_no_slash: "CHR ''/'' \<notin> set e \<Longrightarrow> split_slash e = [e]"
  by (induction e) auto

lemma clean_step_plain: "plain e \<Longrightarrow> clean_step r kept e = e # kept"
  by (simp add: clean_step_def plain_def)

lemma join_slash_snoc: "xs \<noteq> [] \<Longrightarrow> join_slash (xs @ [y]) = join_slash xs @ ''/'' @ y"
  by (induction xs rule: join_slash.induct) auto

lemma Clean_append_plain:
  assumes "root \<noteq> []" and "list_all plain ds"
  shows "Clean (root @ concat (map ((#) (CHR ''/'')) ds)) =
     (let rooted = (hd root = CHR ''/'');
          kept = rev ds @ foldl (clean_step rooted) [] (split_slash root)
      in if rooted then ''/'' @ join_slash (rev kept)
         else if kept = [] then ''.'' else join_slash (rev kept))"
proof -
  have sp: "split_slash (root @ concat (map ((#) (CHR ''/'')) ds)) = split_slash root @ ds"
    using assms(2)
  proof (induction ds rule: rev_induct)
    case Nil
    then show ?case by simp
  next
    case (snoc d ds)
    then have "split_slash ((root @ concat (map ((#) (CHR ''/'')) ds)) @ CHR ''/'' # d)
        = (split_slash root @ ds) @ [d]"
      unfolding split_slash_append by (simp add: split_slash_no_slash plain_def)
    then show ?case by simp
  qed
  have kp: "foldl (clean_step r) k ds = rev ds @ k" for r k
    using assms(2) by (induction ds arbitrary: k) (simp_all add: clean_step_plain)
  have ne: "root @ concat (map ((#) (CHR ''/'')) ds) \<noteq> []"
    and hd: "hd (root @ concat (map ((#) (CHR ''/'')) ds)) = hd root"
    using assms(1) by simp_all
  show ?thesis
    unfolding Clean_def Let_def sp foldl_append kp hd using ne by simp
qed

lemma plain_facts:
  assumes "plain d"
  shows "hd d \<noteq> CHR ''/''" and "d \<noteq> []" and "split_slash d = [d]"
proof -
  from assms show "d \<noteq> []" by (simp add: plain_def)
  then obtain c cs where "d = c # cs" by (cases d) auto
  with assms show "hd d \<noteq> CHR ''/''" by (auto simp add: plain_def)
  from assms show "split_slash d = [d]" by (simp add: split_slash_no_slash plain_def)
qed

lemma Join_Nil_plain:
  assumes "plain d"
  shows "Join [] d = d"
proof -
  have "Join [] d = Clean d"
    using plain_facts(2) [OF assms] by (simp add: Join_def)
  also have "\<dots> = join_slash (rev (foldl (clean_step False) [] [d]))"
    unfolding Clean_def Let_def plain_facts(3) [OF assms]
    using plain_facts(1,2) [OF assms] by (simp add: clean_step_plain [OF assms])
  also have "\<dots> = d"
    by (simp add: clean_step_plain [OF assms])
  finally show ?thesis .
qed

lemma Join_root_plain:
  assumes "plain d" and "root \<noteq> []"
  shows "Join root d =
     (if hd root = CHR ''/'' then ''/'' else [])
       @ join_slash (rev (foldl (clean_step (hd root = CHR ''/'')) [] (split_slash root)) @ [d])"
proof -
  have "Join root d = Clean (root @ concat (map ((#) (CHR ''/'')) [d]))"
    using assms(2) by (simp add: Join_def)
  also have "\<dots> = (if hd root = CHR ''/'' then ''/'' else [])
           @ join_slash (rev (foldl (clean_step (hd root = CHR ''/'')) [] (split_slash root)) @ [d])"
    using assms(1) by (subst Clean_append_plain [OF assms(2)]) (simp_all add: Let_def)
  finally show ?thesis .
qed

lemma Join_plain2:
  assumes "plain d" and "plain n"
  shows "Join root (d @ ''/'' @ n) = Join root d @ ''/'' @ n"
proof (cases "root = []")
  case True
  have "Join [] (d @ ''/'' @ n) = Clean (d @ concat (map ((#) (CHR ''/'')) [n]))"
    using plain_facts(2) [OF assms(1)] by (simp add: Join_def)
  also have "\<dots> = join_slash (rev (rev [n] @ foldl (clean_step False) [] [d]))"
    using assms(2) plain_facts(1) [OF assms(1)]
    by (subst Clean_append_plain [OF plain_facts(2) [OF assms(1)]])
       (simp_all add: Let_def plain_facts(3) [OF assms(1)])
  also have "\<dots> = d @ ''/'' @ n"
    by (simp add: clean_step_plain [OF assms(1)])
  finally show ?thesis
    using True by (simp add: Join_Nil_plain [OF assms(1)])
next
  case False
  have "Join root (d @ ''/'' @ n) = Clean (root @ concat (map ((#) (CHR ''/'')) [d, n]))"
    using False by (simp add: Join_def)
  also have "\<dots> = (if hd root = CHR ''/'' then ''/'' else [])
           @ join_slash ((rev (foldl (clean_step (hd root = CHR ''/'')) [] (split_slash root)) @ [d]) @ [n])"
    using assms by (subst Clean_append_plain [OF False]) (simp_all add: Let_def)
  also have "\<dots> = (if hd root = CHR ''/'' then ''/'' else [])
           @ join_slash (rev (foldl (clean_step (hd root = CHR ''/'')) [] (split_slash root)) @ [d])
           @ ''/'' @ n"
    by (subst join_slash_snoc) simp_all
  also have "\<dots> = Join root d @ ''/'' @ n"
    by (simp add: Join_root_plain [OF assms(1) False])
  finally show ?thesis .
qed

lemma foldl_clean_step_nonempty:
  "\<forall>e\<in>set kept. e \<noteq> [] \<Longrightarrow> \<forall>e\<in>set (foldl (clean_step r) kept es). e \<noteq> []"
proof (induction es arbitrary: kept)
  case Nil
  then show ?case by simp
next
  case (Cons x es)
  have "\<forall>e\<in>set (clean_step r kept x). e \<noteq> []"
    using Cons.prems by (auto simp add: clean_step_def split: list.splits)
  then show ?case
    using Cons.IH by simp
qed

lemma join_slash_not_Nil: "xs \<noteq> [] \<Longrightarrow> \<forall>e\<in>set xs. e \<noteq> [] \<Longrightarrow> join_slash xs \<noteq> []"
  by (induction xs rule: join_slash.induct) auto

lemma Clean_not_Nil: "Clean p \<noteq> []"
proof -
  have "\<forall>e\<in>set (foldl (clean_step r) [] es). e \<noteq> []" for r es
    using foldl_clean_step_nonempty [of "[]" r es] by simp
  then show ?thesis
    using join_slash_not_Nil by (auto simp add: Clean_def Let_def)
qed

lemma Join_not_Nil: "b \<noteq> [] \<Longrightarrow> Join a b \<noteq> []"
  by (simp add: Join_def Clean_not_Nil)

text \<open>An absolute root without empty, \<^verbatim>\<open>.\<close> or \<^verbatim>\<open>..\<close> elements is joined as it is.\<close>

lemma split_slash_join_slash:
  "es \<noteq> [] \<Longrightarrow> list_all plain es \<Longrightarrow> split_slash (join_slash es) = es"
proof (induction es rule: join_slash.induct)
  case 1
  then show ?case by simp
next
  case (2 e)
  then show ?case by (simp add: split_slash_no_slash plain_def)
next
  case (3 e e' es)
  then show ?case
    by (simp add: split_slash_append split_slash_no_slash plain_def)
qed

lemma foldl_clean_step_plain:
  "list_all plain es \<Longrightarrow> foldl (clean_step r) kept es = rev es @ kept"
  by (induction es arbitrary: kept) (simp_all add: clean_step_plain)

lemma Join_abs_root:
  assumes "es \<noteq> []" and "list_all plain es" and "plain n"
  shows "Join (CHR ''/'' # join_slash es) n = CHR ''/'' # join_slash es @ ''/'' @ n"
proof -
  have sp: "split_slash (CHR ''/'' # join_slash es) = [] # es"
    using assms by (simp add: split_slash_join_slash)
  have "foldl (clean_step True) [] ([] # es) = rev es"
    using assms(2) foldl_clean_step_plain [of es True "[]"] by (simp add: clean_step_def)
  with sp have "Join (CHR ''/'' # join_slash es) n = ''/'' @ join_slash (es @ [n])"
    by (subst Join_root_plain [OF assms(3)]) simp_all
  then show ?thesis
    using assms(1) by (simp add: join_slash_snoc)
qed

section \<open>Blob paths\<close>

lemma wholeFilePath_valid:
  assumes "FileTracker_validateHash ft s = Inr (h, p)"
  shows "FileTracker_wholeFilePath ft s sh t =
     Inr (Join (path ft) (fmt_02x p) @ ''/'' @ fmt_032x_string h @ ''.'' @ fmt_02x sh
            @ ''.'' @ fmt_019d t)"
  using Join_plain2 [OF fmt_02x_plain blob_name_plain, of "path ft" p h sh t]
  by (simp add: FileTracker_wholeFilePath_def assms)

lemma wholeFilePath_inj:
  assumes "FileTracker_validateHash ft s = Inr (h, p)"
    and "FileTracker_wholeFilePath ft s sh t1 = FileTracker_wholeFilePath ft s sh t2"
  shows "t1 = t2"
  using assms(2) unfolding wholeFilePath_valid [OF assms(1)]
  by (simp add: fmt_019d_inj)

lemma wholeFilePath_not_Nil:
  "FileTracker_wholeFilePath ft s sh t = Inr pth \<Longrightarrow> pth \<noteq> []"
  by (auto simp add: FileTracker_wholeFilePath_def Join_not_Nil split: sum.splits)

lemma wholeFilePath_Inl:
  "FileTracker_validateHash ft s = Inl e \<Longrightarrow> FileTracker_wholeFilePath ft s sh t = Inl e"
  by (simp add: FileTracker_wholeFilePath_def)

section \<open>The table\<close>

lemma sort_key_singleton:
  assumes "sort_key k xs = [r]"
  shows "xs = [r]"
proof -
  from assms have "length xs = 1"
    using length_sort [of k xs] by simp
  then obtain x where x: "xs = [x]"
    by (cases xs) auto
  with assms show ?thesis by simp
qed

lemma select_files_Nil_iff:
  "select_files d h sh = [] \<longleftrightarrow> filter (\<lambda>r. row_hash r = h \<and> row_shard r = sh) d = []"
proof -
  have "length (select_files d h sh) = length (filter (\<lambda>r. row_hash r = h \<and> row_shard r = sh) d)"
    by (simp add: select_files_def)
  then show ?thesis
    by (metis length_0_conv)
qed

lemma select_files_member:
  "r \<in> set (select_files d h sh) \<Longrightarrow> row_hash r = h \<and> row_shard r = sh \<and> r \<in> set d"
  by (simp add: select_files_def)

lemma insert_files_fresh:
  assumes "select_files d h sh = []" and "row_hash r = h" and "row_shard r = sh"
  shows "insert_files d r = Inr (d @ [r])" and "select_files (d @ [r]) h sh = [r]"
proof -
  from assms(1) have f: "filter (\<lambda>r. row_hash r = h \<and> row_shard r = sh) d = []"
    by (simp add: select_files_Nil_iff)
  then have "\<not> list_ex (\<lambda>r'. row_hash r' = h \<and> row_shard r' = sh) d"
    by (simp add: list_ex_iff filter_empty_conv)
  with assms(2,3) show "insert_files d r = Inr (d @ [r])"
    by (simp add: insert_files_def)
  from f assms(2,3) show "select_files (d @ [r]) h sh = [r]"
    by (simp add: select_files_def)
qed

lemma select_files_update:
  assumes "select_files d h sh = [r]"
  shows "select_files (update_files d t mh md h sh) h sh =
     [r\<lparr>row_timestamp := t, row_metahash := mh, row_metadata := md\<rparr>]"
proof -
  let ?key = "\<lambda>r. row_hash r = h \<and> row_shard r = sh"
  let ?upd = "\<lambda>r. if row_hash r = h \<and> row_shard r = sh
              then r\<lparr>row_timestamp := t, row_metahash := mh, row_metadata := md\<rparr> else r"
  from assms have f: "filter ?key d = [r]"
    unfolding select_files_def by (rule sort_key_singleton)
  then have "r \<in> set (filter ?key d)" by simp
  then have key: "?key r" by simp
  have "filter ?key (map ?upd d) = map ?upd (filter ?key d)"
    by (induction d) auto
  with f key show ?thesis
    by (simp add: select_files_def update_files_def)
qed

section \<open>Writers and files\<close>

lemma Save_None_iff:
  "Save env fls f pth = (None, fls1, f1) \<longleftrightarrow>
     status f = Writing \<and> save_err env pth = None \<and> fls1 = fls(pth \<mapsto> written f)
     \<and> f1 = f\<lparr>status := Saved\<rparr>"
  by (auto simp add: Save_def split: option.splits)

lemma Remove_other: "Remove env fls p = (e, fls2) \<Longrightarrow> q \<noteq> p \<Longrightarrow> fls2 q = fls q"
  by (auto simp add: Remove_def split: option.splits if_splits)

lemma Abandon_not_Writing: "status (Abandon f) \<noteq> Writing"
  by (simp add: Abandon_def)


section \<open>Commit\<close>

lemma Commit_publish_None:
  assumes "Commit_publish env ft fls f p h sh t mh md ro = (None, ft', fls', f')"
  shows "\<exists>pth d. FileTracker_wholeFilePath ft h sh t = Inr pth
      \<and> status f = Writing \<and> f' = f\<lparr>status := Saved\<rparr>
      \<and> (if ro = []
          then insert_files (dbs ft ! p)
                 \<lparr>row_hash = h, row_shard = sh, row_timestamp = t,
                  row_metahash = mh, row_metadata = md\<rparr>
          else Inr (update_files (dbs ft ! p) t mh md h sh)) = Inr d
      \<and> dbs ft' = (dbs ft)[p := d]
      \<and> path ft' = path ft \<and> diskPartPower ft' = diskPartPower ft
      \<and> (\<forall>q. q \<noteq> ro \<longrightarrow> fls' q = (fls(pth \<mapsto> written f)) q)"
proof -
  from assms obtain pth where pth: "FileTracker_wholeFilePath ft h sh t = Inr pth"
    by (cases "FileTracker_wholeFilePath ft h sh t") (auto simp add: Commit_publish_def)
  from assms pth obtain fls1 f1 where sv: "Save env fls f pth = (None, fls1, f1)"
    by (cases "Save env fls f pth") (auto simp add: Commit_publish_def split: option.splits)
  then have s: "status f = Writing" "fls1 = fls(pth \<mapsto> written f)" "f1 = f\<lparr>status := Saved\<rparr>"
    by (simp_all add: Save_None_iff)
  let ?ins = "if ro = []
          then insert_files (dbs ft ! p)
                 \<lparr>row_hash = h, row_shard = sh, row_timestamp = t,
                  row_metahash = mh, row_metadata = md\<rparr>
          else Inr (update_files (dbs ft ! p) t mh md h sh)"
  from assms pth sv have ex: "exec_err env p = None"
    by (auto simp add: Commit_publish_def split: option.splits)
  with assms pth sv obtain d where d: "?ins = Inr d"
    by (cases ?ins) (auto simp add: Commit_publish_def split: if_splits)
  from assms pth sv ex d have cm: "commit_err env p = None"
    by (auto simp add: Commit_publish_def split: option.splits if_splits)
  show ?thesis
  proof (cases "ro = []")
    case True
    with assms pth sv ex d cm s show ?thesis
      by (auto simp add: Commit_publish_def)
  next
    case False
    obtain e2 fls2 where rm: "Remove env fls1 ro = (e2, fls2)"
      by (cases "Remove env fls1 ro") auto
    have "\<forall>q. q \<noteq> ro \<longrightarrow> fls2 q = fls1 q"
      using Remove_other [OF rm] by blast
    with False assms pth sv ex d cm s rm show ?thesis
      by (cases e2) (auto simp add: Commit_publish_def)
  qed
qed

lemma Commit_tx_None:
  assumes "Commit_tx env cdc ft fls f p h sh t mh md = (None, ft', fls', f')"
  shows "(select_files (dbs ft ! p) h sh = []
          \<and> Commit_publish env ft fls f p h sh t mh md [] = (None, ft', fls', f'))
       \<or> (\<exists>r rs. select_files (dbs ft ! p) h sh = r # rs \<and> t \<le> row_timestamp r
          \<and> ft' = ft \<and> fls' = fls \<and> f' = f)
       \<or> (\<exists>r rs ro mh1 md1 lg. select_files (dbs ft ! p) h sh = r # rs \<and> row_timestamp r < t
          \<and> FileTracker_wholeFilePath ft h sh (row_timestamp r) = Inr ro
          \<and> Commit_publish env (ft\<lparr>logger := lg\<rparr>) fls f p h sh t mh1 md1 ro = (None, ft', fls', f'))"
proof -
  from assms have e: "begin_err env p = None" "query_err env p = None"
    by (auto simp add: Commit_tx_def split: option.splits)
  from assms e have re: "rows_err env p = None"
    by (auto simp add: Commit_tx_def split: option.splits list.splits)
  show ?thesis
  proof (cases "select_files (dbs ft ! p) h sh")
    case Nil
    with assms e re show ?thesis
      by (simp add: Commit_tx_def)
  next
    case (Cons r rs)
    with assms e re have se: "scan_err env p = None"
      by (auto simp add: Commit_tx_def split: option.splits)
    show ?thesis
    proof (cases "t \<le> row_timestamp r")
      case True
      with assms e re se Cons show ?thesis
        by (simp add: Commit_tx_def)
    next
      case False
      with assms e re se Cons show ?thesis
        by (auto simp add: Commit_tx_def Let_def split: sum.splits)
    qed
  qed
qed

lemma Commit_None:
  assumes "FileTracker_Commit env cdc ft fls f s sh t mh md = (Return None, ft', fls', f')"
  shows "\<exists>h dp f1. FileTracker_validateHash ft s = Inr (h, dp) \<and> nat dp < length (dbs ft)
     \<and> Commit_tx env cdc ft fls f (nat dp) h sh t mh md = (None, ft', fls', f1)
     \<and> f' = Abandon f1"
  using assms
  by (auto simp add: FileTracker_Commit_def split: sum.splits if_splits prod.splits)

section \<open>The example inputs\<close>

lemmas hash_eval =
  FileTracker_validateHash_def ToLower_def toLower_byte_def char_of_def bit_Suc_0_iff
  fromHexChar_def

lemmas fmt_eval =
  fmt_02x_def fmt_019d_def fmt_zero_pad_def fmt_032x_string_def hex_of_byte_def digit_char_def
  hex_digits.simps dec_digits.simps replicate_numeral

lemma example_tracker_fields [simp]:
  "path example_tracker = ''/srv/node/d1''"
  "diskPartPower example_tracker = 6"
  "dbs example_tracker = replicate 64 []"
  "logger example_tracker = []"
  by (simp_all add: example_tracker_def)

lemma tracker_with_fields [simp]:
  "path (tracker_with r) = ''/srv/node/d1''"
  "diskPartPower (tracker_with r) = 6"
  "dbs (tracker_with r) = (replicate 64 [])[31 := [r]]"
  "logger (tracker_with r) = []"
  by (simp_all add: tracker_with_def)

lemma validateHash_power6:
  assumes "diskPartPower ft = 6"
  shows "FileTracker_validateHash ft ''7FFFFFFFFFFFFFFFFFFFFFFFFFFFFFFF'' = Inr (hash_7f, 31)"
    and "FileTracker_validateHash ft hash_7f = Inr (hash_7f, 31)"
    and "FileTracker_validateHash ft hash_00 = Inr (hash_00, 0)"
    and "FileTracker_validateHash ft hash_ff = Inr (hash_ff, 63)"
    and "FileTracker_validateHash ft ''40000000000000000000000000000000''
           = Inr (''40000000000000000000000000000000'', 16)"
    and "FileTracker_validateHash ft ''bfffffffffffffffffffffffffffffff''
           = Inr (''bfffffffffffffffffffffffffffffff'', 47)"
  by (simp_all add: hash_eval assms hash_7f_def hash_00_def hash_ff_def)

lemma example_tracker_ok: "tracker_ok example_tracker" "tracker_ok (tracker_with r)"
  by (simp_all add: tracker_ok_def)

section \<open>Stale writes\<close>

text \<open>
  Claim C3. When the key of a commit already has a stored record and the timestamp of
  the commit is less than or equal to the stored one, \<^verbatim>\<open>Commit\<close> returns a nil error and
  changes nothing: the tracker (its tables and its log) and the files of the disk are
  returned as they were, so no blob is published or removed, and the writer is
  abandoned, which releases the temporary file. The hypotheses say that the hash is
  valid, with \<open>h\<close> its lower-case form and \<open>dp\<close> its partition, that the partition has a
  database, that the four database steps before the comparison do not fail, and that
  \<open>r\<close> is the record the query returns first.
\<close>

theorem Commit_stale_is_discarded:
  assumes "FileTracker_validateHash ft s = Inr (h, dp)"
    and "nat dp < length (dbs ft)"
    and "begin_err env (nat dp) = None" and "query_err env (nat dp) = None"
    and "rows_err env (nat dp) = None" and "scan_err env (nat dp) = None"
    and "select_files (dbs ft ! nat dp) h shard = r # rs"
    and "timestamp \<le> row_timestamp r"
  shows "FileTracker_Commit env cdc ft fls f s shard timestamp metahash metadata
           = (Return None, ft, fls, Abandon f)
         \<and> status (Abandon f) \<noteq> Writing"
  using assms
  by (simp add: FileTracker_Commit_def Commit_tx_def Abandon_not_Writing)

theorem Commit_stale_is_discarded_witness:
  "FileTracker_Commit quiet text_codec (tracker_with (stored_row 5 ''#a'' ''a'')) Map.empty
      (new_writer ''new bytes'') ''7FFFFFFFFFFFFFFFFFFFFFFFFFFFFFFF'' 0 5 ''#b'' ''b''
    = (Return None, tracker_with (stored_row 5 ''#a'' ''a''), Map.empty,
       \<lparr>written = ''new bytes'', status = Abandoned\<rparr>)"
proof -
  let ?ft = "tracker_with (stored_row 5 ''#a'' ''a'')"
  have v: "FileTracker_validateHash ?ft ''7FFFFFFFFFFFFFFFFFFFFFFFFFFFFFFF'' = Inr (hash_7f, 31)"
    by (rule validateHash_power6) simp
  have sel: "select_files (dbs ?ft ! nat 31) hash_7f 0 = stored_row 5 ''#a'' ''a'' # []"
    by (simp add: select_files_def stored_row_def)
  have "FileTracker_Commit quiet text_codec ?ft Map.empty (new_writer ''new bytes'')
          ''7FFFFFFFFFFFFFFFFFFFFFFFFFFFFFFF'' 0 5 ''#b'' ''b''
        = (Return None, ?ft, Map.empty, Abandon (new_writer ''new bytes''))"
    using Commit_stale_is_discarded [OF v _ _ _ _ _ sel, of quiet 5 text_codec Map.empty
        "new_writer ''new bytes''" "''#b''" "''b''"]
    by (simp add: quiet_def stored_row_def)
  then show ?thesis
    by (simp add: Abandon_def new_writer_def)
qed

section \<open>Invalid hashes\<close>

text \<open>
  Claim C7. For a string that is not exactly 32 hexadecimal characters, \<^verbatim>\<open>TempFile\<close>,
  \<^verbatim>\<open>Commit\<close>, \<^verbatim>\<open>Lookup\<close> and \<^verbatim>\<open>List\<close> (with the string as either bound) return the error
  of \<^verbatim>\<open>validateHash\<close>, which reports an invalid length or an invalid digit. The result
  is the same in every outside world, also one where every step fails, so no step on
  a database or a file was taken; \<^verbatim>\<open>Commit\<close> returns the tracker, the files and the
  writer as it received them.
\<close>

theorem invalid_hash_is_rejected:
  assumes "\<not> is_hash s"
  shows "FileTracker_TempFile env ft s sizeHint = Inl (hash_error s)
       \<and> FileTracker_Commit env cdc ft fls f s shard timestamp metahash metadata
           = (Return (Some (hash_error s)), ft, fls, f)
       \<and> FileTracker_Lookup env ft s shard = Return (0, [], [], [], Some (hash_error s))
       \<and> FileTracker_List env ft s stopHash = Return ([], Some (hash_error s))
       \<and> FileTracker_List env ft startHash s
           = Return ([], Some (if is_hash startHash then hash_error s else hash_error startHash))
       \<and> (\<exists>h n. hash_error s = InvalidHashLength h n \<or> hash_error s = InvalidHashDecoding h)"
proof -
  have v: "FileTracker_validateHash ft s = Inl (hash_error s)"
    using not_is_hash_validateHash [OF assms] by (simp add: hash_error_def)
  have "FileTracker_List env ft startHash s
           = Return ([], Some (if is_hash startHash then hash_error s else hash_error startHash))"
  proof (cases "is_hash startHash")
    case True
    then obtain p where "FileTracker_validateHash ft startHash = Inr (ToLower startHash, p)"
      using is_hash_validateHash by blast
    with v True show ?thesis
      by (simp add: FileTracker_List_def)
  next
    case False
    then have "FileTracker_validateHash ft startHash = Inl (hash_error startHash)"
      using not_is_hash_validateHash [OF False] by (simp add: hash_error_def)
    with False show ?thesis
      by (simp add: FileTracker_List_def)
  qed
  moreover have "\<exists>h n. hash_error s = InvalidHashLength h n \<or> hash_error s = InvalidHashDecoding h"
    by (simp add: hash_error_def)
  ultimately show ?thesis
    using v
    by (simp add: FileTracker_TempFile_def FileTracker_wholeFileDir_def FileTracker_Commit_def
        FileTracker_Lookup_def FileTracker_List_def)
qed

theorem invalid_hash_is_rejected_witness:
  "\<not> is_hash ''7fffffffffffffffffffffffffffffg'' \<and>
   FileTracker_Commit quiet text_codec example_tracker Map.empty (new_writer ''x'')
       ''7fffffffffffffffffffffffffffffg'' 0 1 ''#a'' ''a''
     = (Return (Some (InvalidHashLength ''7fffffffffffffffffffffffffffffg'' 31)),
        example_tracker, Map.empty, new_writer ''x'')"
proof -
  have n: "\<not> is_hash ''7fffffffffffffffffffffffffffffg''"
    by (simp add: is_hash_def)
  have "hash_error ''7fffffffffffffffffffffffffffffg''
          = InvalidHashLength ''7fffffffffffffffffffffffffffffg'' 31"
    by (simp add: hash_error_def ToLower_def toLower_byte_def)
  with n invalid_hash_is_rejected [OF n, of quiet example_tracker 0 text_codec Map.empty
      "new_writer ''x''" 0 1 "''#a''" "''a''"]
  show ?thesis by simp
qed

section \<open>Lookup of a key without a record\<close>

lemma fileTracker_validateHash_eq:
  "fileTracker_validateHash ft s = FileTracker_validateHash ft s"
  by (simp add: fileTracker_validateHash_def FileTracker_validateHash_def)

lemma fileTracker_wholeFilePath_eq:
  "fileTracker_wholeFilePath ft s sh t = FileTracker_wholeFilePath ft s sh t"
  by (simp add: fileTracker_wholeFilePath_def FileTracker_wholeFilePath_def
      fileTracker_validateHash_eq)

lemma fileTracker_wholeFileDir_eq:
  "fileTracker_wholeFileDir ft s = FileTracker_wholeFileDir ft s"
  by (simp add: fileTracker_wholeFileDir_def FileTracker_wholeFileDir_def
      fileTracker_validateHash_eq)

lemma no_row_iff:
  "select_files d h sh = [] \<longleftrightarrow> (\<forall>r\<in>set d. \<not> (row_hash r = h \<and> row_shard r = sh))"
  by (simp add: select_files_Nil_iff filter_empty_conv)

lemma example_blob_path_0:
  assumes "path ft = ''/srv/node/d1''" and "diskPartPower ft = 6"
  shows "FileTracker_wholeFilePath ft hash_7f 0 0 = Inr blob_7f_0"
proof -
  have j: "Join ''/srv/node/d1'' ''1f'' = ''/srv/node/d1/1f''"
    by (simp add: Join_def Clean_def clean_step_def)
  have f: "fmt_02x 31 = ''1f''" "fmt_02x 0 = ''00''" "fmt_019d 0 = ''0000000000000000000''"
    by (simp_all add: fmt_eval)
  have x: "fmt_032x_string hash_7f
      = ''3766666666666666666666666666666666666666666666666666666666666666''"
    by (simp add: fmt_eval hash_7f_def)
  have v: "FileTracker_validateHash ft hash_7f = Inr (hash_7f, 31)"
    using assms(2) by (rule validateHash_power6)
  show ?thesis
    unfolding wholeFilePath_valid [OF v] assms(1) j f x blob_7f_0_def by simp
qed

text \<open>
  Claim C5, amended. For a valid hash \<open>s\<close> (lower-case form \<open>h\<close>, partition \<open>dp\<close>) and a
  shard, both \<^verbatim>\<open>Lookup\<close> and \<^verbatim>\<open>lookup\<close> return \<open>(0, "", nil, "", nil)\<close>, zero values with
  an empty path and a nil error, exactly when the query and the iteration do not fail
  and the table of the partition holds no row with this hash and shard. There is no
  not-found error: the outcome differs from an error by its nil error and from a stored
  record by its empty path only.
\<close>

theorem Lookup_not_found_returns_nil:
  assumes "FileTracker_validateHash ft s = Inr (h, dp)"
    and "nat dp < length (dbs ft)"
  shows "(FileTracker_Lookup env ft s shard = Return (0, [], [], [], None)
          \<longleftrightarrow> query_err env (nat dp) = None \<and> rows_err env (nat dp) = None
              \<and> (\<forall>r\<in>set (dbs ft ! nat dp). \<not> (row_hash r = h \<and> row_shard r = shard)))
       \<and> (fileTracker_lookup env ft s shard = Return (0, [], [], [], None)
          \<longleftrightarrow> query_err env (nat dp) = None \<and> rows_err env (nat dp) = None
              \<and> (\<forall>r\<in>set (dbs ft ! nat dp). \<not> (row_hash r = h \<and> row_shard r = shard)))"
proof -
  have vh: "FileTracker_validateHash ft h = Inr (h, dp)"
    using assms(1) by (rule validateHash_normal)
  have p': "\<exists>pth. FileTracker_wholeFilePath ft h shard t = Inr pth \<and> pth \<noteq> []" for t
    using wholeFilePath_valid [OF vh, of shard t] wholeFilePath_not_Nil [of ft h shard t] by simp
  note nr = no_row_iff [of "dbs ft ! nat dp" h shard, symmetric]
  show ?thesis
    unfolding nr
  proof (cases "query_err env (nat dp)")
    case (Some e)
    with assms show "(FileTracker_Lookup env ft s shard = Return (0, [], [], [], None)
          \<longleftrightarrow> query_err env (nat dp) = None \<and> rows_err env (nat dp) = None
              \<and> select_files (dbs ft ! nat dp) h shard = [])
       \<and> (fileTracker_lookup env ft s shard = Return (0, [], [], [], None)
          \<longleftrightarrow> query_err env (nat dp) = None \<and> rows_err env (nat dp) = None
              \<and> select_files (dbs ft ! nat dp) h shard = [])"
      by (simp add: FileTracker_Lookup_def fileTracker_lookup_def fileTracker_validateHash_eq)
  next
    case None
    note q = this
    show "(FileTracker_Lookup env ft s shard = Return (0, [], [], [], None)
          \<longleftrightarrow> query_err env (nat dp) = None \<and> rows_err env (nat dp) = None
              \<and> select_files (dbs ft ! nat dp) h shard = [])
       \<and> (fileTracker_lookup env ft s shard = Return (0, [], [], [], None)
          \<longleftrightarrow> query_err env (nat dp) = None \<and> rows_err env (nat dp) = None
              \<and> select_files (dbs ft ! nat dp) h shard = [])"
    proof (cases "rows_err env (nat dp)")
      case (Some e)
      with q assms show ?thesis
        by (simp add: FileTracker_Lookup_def fileTracker_lookup_def fileTracker_validateHash_eq)
    next
      case None
      note re = this
      show ?thesis
      proof (cases "select_files (dbs ft ! nat dp) h shard")
        case Nil
        with q re assms show ?thesis
          by (simp add: FileTracker_Lookup_def fileTracker_lookup_def fileTracker_validateHash_eq)
      next
        case (Cons r rs)
        obtain pth where pth: "FileTracker_wholeFilePath ft h shard (row_timestamp r) = Inr pth"
            "pth \<noteq> []"
          using p' by blast
        with Cons q re assms show ?thesis
          by (cases "scan_err env (nat dp)")
             (simp_all add: FileTracker_Lookup_def fileTracker_lookup_def
                fileTracker_validateHash_eq fileTracker_wholeFilePath_eq Let_def)
      qed
    qed
  qed
qed

theorem Lookup_not_found_returns_nil_witness:
  "FileTracker_Lookup quiet three_records ''7FFFFFFFFFFFFFFFFFFFFFFFFFFFFFFF'' 1
      = Return (0, [], [], [], None)
   \<and> fileTracker_lookup quiet three_records ''7FFFFFFFFFFFFFFFFFFFFFFFFFFFFFFF'' 1
      = Return (0, [], [], [], None)
   \<and> FileTracker_Lookup quiet (tracker_with (stored_row 0 [] [])) ''7FFFFFFFFFFFFFFFFFFFFFFFFFFFFFFF'' 0
      \<noteq> Return (0, [], [], [], None)"
proof -
  have v: "FileTracker_validateHash ft ''7FFFFFFFFFFFFFFFFFFFFFFFFFFFFFFF'' = Inr (hash_7f, 31)"
    if "diskPartPower ft = 6" for ft
    using that by (rule validateHash_power6)
  have d: "dbs three_records ! nat 31 = [row_of hash_7f]"
    by (simp add: three_records_def nth_append)
  have "\<forall>r\<in>set (dbs three_records ! nat 31). \<not> (row_hash r = hash_7f \<and> row_shard r = 1)"
    unfolding d by (simp add: row_of_def)
  moreover have "\<not> (\<forall>r\<in>set (dbs (tracker_with (stored_row 0 [] [])) ! nat 31).
      \<not> (row_hash r = hash_7f \<and> row_shard r = 0))"
    by (simp add: stored_row_def)
  moreover have "nat 31 < length (dbs three_records)" "diskPartPower three_records = 6"
    by (simp_all add: three_records_def)
  ultimately show ?thesis
    using Lookup_not_found_returns_nil [OF v, of three_records quiet 1]
      Lookup_not_found_returns_nil [OF v, of "tracker_with (stored_row 0 [] [])" quiet 0]
    by (simp add: quiet_def)
qed

text \<open>
  Claim C5 as stated fails. A key without a record is looked up in the empty example
  tracker: the call returns a nil error, as a successful call does, with zero values.
  The lookup of a stored record with timestamp 0 and empty metahash and metadata
  returns the same timestamp, metahash, metadata and nil error; only the path differs.
\<close>

theorem Lookup_not_found_counterexample:
  "FileTracker_Lookup quiet example_tracker hash_7f 0 = Return (0, [], [], [], None)
   \<and> fileTracker_lookup quiet example_tracker hash_7f 0 = Return (0, [], [], [], None)
   \<and> FileTracker_Lookup quiet (tracker_with (stored_row 0 [] [])) hash_7f 0
       = Return (0, [], [], blob_7f_0, None)"
proof -
  have v: "FileTracker_validateHash ft hash_7f = Inr (hash_7f, 31)" if "diskPartPower ft = 6" for ft
    using that by (rule validateHash_power6)
  have 1: "FileTracker_Lookup quiet example_tracker hash_7f 0 = Return (0, [], [], [], None)"
    by (simp add: FileTracker_Lookup_def v select_files_def quiet_def)
  have 2: "fileTracker_lookup quiet example_tracker hash_7f 0 = Return (0, [], [], [], None)"
    by (simp add: fileTracker_lookup_def fileTracker_validateHash_eq v select_files_def quiet_def)
  have 3: "FileTracker_Lookup quiet (tracker_with (stored_row 0 [] [])) hash_7f 0
       = Return (0, [], [], blob_7f_0, None)"
    by (simp add: FileTracker_Lookup_def v select_files_def quiet_def stored_row_def
        example_blob_path_0 Let_def)
  from 1 2 3 show ?thesis by blast
qed

section \<open>Lookup of a record with metadata\<close>

lemma example_blob_path:
  assumes "path ft = ''/srv/node/d1''" and "diskPartPower ft = 6"
  shows "FileTracker_wholeFilePath ft hash_7f 0 1 = Inr
      ''/srv/node/d1/1f/3766666666666666666666666666666666666666666666666666666666666666.00.0000000000000000001''"
    and "FileTracker_wholeFilePath ft hash_7f 0 2 = Inr
      ''/srv/node/d1/1f/3766666666666666666666666666666666666666666666666666666666666666.00.0000000000000000002''"
proof -
  have j: "Join ''/srv/node/d1'' ''1f'' = ''/srv/node/d1/1f''"
    by (simp add: Join_def Clean_def clean_step_def)
  have f: "fmt_02x 31 = ''1f''" "fmt_02x 0 = ''00''"
      "fmt_019d 1 = ''0000000000000000001''" "fmt_019d 2 = ''0000000000000000002''"
    by (simp_all add: fmt_eval)
  have x: "fmt_032x_string hash_7f
      = ''3766666666666666666666666666666666666666666666666666666666666666''"
    by (simp add: fmt_eval hash_7f_def)
  have v: "FileTracker_validateHash ft hash_7f = Inr (hash_7f, 31)"
    using assms(2) by (rule validateHash_power6)
  show "FileTracker_wholeFilePath ft hash_7f 0 1 = Inr
      ''/srv/node/d1/1f/3766666666666666666666666666666666666666666666666666666666666666.00.0000000000000000001''"
    unfolding wholeFilePath_valid [OF v] assms(1) j f x by simp
  show "FileTracker_wholeFilePath ft hash_7f 0 2 = Inr
      ''/srv/node/d1/1f/3766666666666666666666666666666666666666666666666666666666666666.00.0000000000000000002''"
    unfolding wholeFilePath_valid [OF v] assms(1) j f x by simp
qed

text \<open>
  Claim C9 (a defect of the code). A record is committed with the one byte of metadata
  \<^verbatim>\<open>a\<close> to the empty example tracker; \<^verbatim>\<open>Commit\<close> returns nil and stores the row.
  \<^verbatim>\<open>Lookup\<close> of the same key then panics with \<^verbatim>\<open>GLH1\<close>, the check on the scanned
  metadata, while \<^verbatim>\<open>lookup\<close> of the second copy returns the record.
\<close>

theorem Lookup_panics_on_metadata:
  "FileTracker_Commit quiet text_codec example_tracker Map.empty (new_writer ''blob'')
      hash_7f 0 1 ''#a'' ''a''
     = (Return None, tracker_with (stored_row 1 ''#a'' ''a''),
        [''/srv/node/d1/1f/3766666666666666666666666666666666666666666666666666666666666666.00.0000000000000000001''
           \<mapsto> ''blob''],
        \<lparr>written = ''blob'', status = Saved\<rparr>)
   \<and> FileTracker_Lookup quiet (tracker_with (stored_row 1 ''#a'' ''a'')) hash_7f 0 = Panic ''GLH1''
   \<and> fileTracker_lookup quiet (tracker_with (stored_row 1 ''#a'' ''a'')) hash_7f 0
     = Return (1, ''#a'', ''a'',
        ''/srv/node/d1/1f/3766666666666666666666666666666666666666666666666666666666666666.00.0000000000000000001'',
        None)"
proof -
  have v: "FileTracker_validateHash ft hash_7f = Inr (hash_7f, 31)" if "diskPartPower ft = 6" for ft
    using that by (rule validateHash_power6)
  have c: "FileTracker_Commit quiet text_codec example_tracker Map.empty (new_writer ''blob'')
      hash_7f 0 1 ''#a'' ''a''
     = (Return None, tracker_with (stored_row 1 ''#a'' ''a''),
        [''/srv/node/d1/1f/3766666666666666666666666666666666666666666666666666666666666666.00.0000000000000000001''
           \<mapsto> ''blob''],
        \<lparr>written = ''blob'', status = Saved\<rparr>)"
    by (simp add: FileTracker_Commit_def Commit_tx_def Commit_publish_def v example_blob_path
        select_files_def insert_files_def Save_def Abandon_def quiet_def new_writer_def
        tracker_with_def stored_row_def)
  have l: "FileTracker_Lookup quiet (tracker_with (stored_row 1 ''#a'' ''a'')) hash_7f 0
      = Panic ''GLH1''"
    by (simp add: FileTracker_Lookup_def v select_files_def quiet_def stored_row_def)
  have l2: "fileTracker_lookup quiet (tracker_with (stored_row 1 ''#a'' ''a'')) hash_7f 0
     = Return (1, ''#a'', ''a'',
        ''/srv/node/d1/1f/3766666666666666666666666666666666666666666666666666666666666666.00.0000000000000000001'',
        None)"
    by (simp add: fileTracker_lookup_def fileTracker_validateHash_eq fileTracker_wholeFilePath_eq
        v example_blob_path select_files_def quiet_def stored_row_def Let_def)
  from c l l2 show ?thesis by simp
qed

section \<open>Start-up\<close>

lemma startup_paths:
  "Join ''/srv/node/d1'' ''temp'' = ''/srv/node/d1/temp''"
  "Join ''/srv/node/d1'' (fmt_02x 0) = ''/srv/node/d1/00''"
  "Join ''/srv/node/d1'' (fmt_02x 1) = ''/srv/node/d1/01''"
  "index_path ''/srv/node/d1'' 0 = ''/srv/node/d1/filetracker_00.sqlite3''"
  "index_path ''/srv/node/d1'' 1 = ''/srv/node/d1/filetracker_01.sqlite3''"
proof -
  have f: "fmt_02x 0 = ''00''" "fmt_02x 1 = ''01''"
    by (simp_all add: fmt_eval)
  show "Join ''/srv/node/d1'' ''temp'' = ''/srv/node/d1/temp''"
    "Join ''/srv/node/d1'' (fmt_02x 0) = ''/srv/node/d1/00''"
    "Join ''/srv/node/d1'' (fmt_02x 1) = ''/srv/node/d1/01''"
    "index_path ''/srv/node/d1'' 0 = ''/srv/node/d1/filetracker_00.sqlite3''"
    "index_path ''/srv/node/d1'' 1 = ''/srv/node/d1/filetracker_01.sqlite3''"
    unfolding f index_path_def by (simp_all add: Join_def Clean_def clean_step_def)
qed

lemma shift_one_values: "shift_one 1 = 2" "shift_one 6 = 64"
  by (simp_all add: shift_one_def)

lemma make_small: "\<not> make_panics 2" "\<not> make_panics 64"
  by (simp_all add: make_panics_def)

lemma init_quiet:
  "FileTracker_init mkdir_01_fails i = Inr []" "FileTracker_init open_01_fails i = Inr []"
  "fileTracker_init mkdir_01_fails i = Inr []"
  by (simp_all add: FileTracker_init_def fileTracker_init_def mkdir_01_fails_def
      open_01_fails_def quiet_def)

text \<open>
  Claim C6 (a defect of the code). With two partitions, the directory and the database
  of partition 0 are set up; then creating the directory of partition 1 fails.
  \<^verbatim>\<open>NewFileTracker\<close> returns the error and the handle of partition 0 is still open. The
  second copy, with its 64 partitions, does the same. When instead opening the
  database of partition 1 fails, the handle of partition 0 is closed before the error
  is returned.
\<close>

theorem NewFileTracker_leaks_on_mkdir_failure:
  "NewFileTracker mkdir_01_fails ''/srv/node/d1'' 1 []
     = (Return (Inl (External ''mkdir: permission denied'')), [0])
   \<and> newFileTracker mkdir_01_fails ''/srv/node/d1'' []
     = (Return (Inl (External ''mkdir: permission denied'')), [0])
   \<and> NewFileTracker open_01_fails ''/srv/node/d1'' 1 []
     = (Return (Inl (External ''unable to open database file'')), [])"
proof -
  have m: "mkdirall_err mkdir_01_fails ''/srv/node/d1/temp'' = None"
      "mkdirall_err mkdir_01_fails ''/srv/node/d1/00'' = None"
      "mkdirall_err mkdir_01_fails ''/srv/node/d1/01'' = Some (External ''mkdir: permission denied'')"
      "open_err mkdir_01_fails p = None" for p
    by (simp_all add: mkdir_01_fails_def quiet_def)
  have o: "mkdirall_err open_01_fails p = None"
      "open_err open_01_fails ''/srv/node/d1/filetracker_00.sqlite3'' = None"
      "open_err open_01_fails ''/srv/node/d1/filetracker_01.sqlite3''
         = Some (External ''unable to open database file'')" for p
    by (simp_all add: open_01_fails_def quiet_def)
  have l1: "NewFileTracker_loop mkdir_01_fails ''/srv/node/d1'' n 0 [] []
      = (Inl (External ''mkdir: permission denied''), [0])" if "2 \<le> n" for n
    using that
    by (subst NewFileTracker_loop.simps, simp add: startup_paths m init_quiet)
       (subst NewFileTracker_loop.simps, simp add: startup_paths m init_quiet)
  have l2: "newFileTracker_loop mkdir_01_fails ''/srv/node/d1'' n 0 [] []
      = (Inl (External ''mkdir: permission denied''), [0])" if "2 \<le> n" for n
    using that
    by (subst newFileTracker_loop.simps, simp add: startup_paths m init_quiet)
       (subst newFileTracker_loop.simps, simp add: startup_paths m init_quiet)
  have l3: "NewFileTracker_loop open_01_fails ''/srv/node/d1'' 2 0 [] []
      = (Inl (External ''unable to open database file''), [])"
    by (subst NewFileTracker_loop.simps, simp add: startup_paths o init_quiet)
       (subst NewFileTracker_loop.simps, simp add: startup_paths o init_quiet)
  show ?thesis
    by (simp add: NewFileTracker_def newFileTracker_def defaultDiskPartPower_def
        shift_one_values make_small startup_paths m o l1 l2 l3)
qed

section \<open>The layout on disk\<close>

lemma length_hex_digits: "n < 16 ^ k \<Longrightarrow> 0 < k \<Longrightarrow> length (hex_digits n) \<le> k"
proof (induction n arbitrary: k rule: hex_digits.induct)
  case (1 n)
  show ?case
  proof (cases "n < 16")
    case True
    with 1(3) show ?thesis by (subst hex_digits.simps) simp
  next
    case False
    with 1(2,3) obtain j where j: "k = Suc j" by (cases k) auto
    with False 1(2) have "0 < j" by (cases j) auto
    moreover from j 1(2) have "n div 16 < 16 ^ j"
      by (simp add: less_mult_imp_div_less mult.commute)
    ultimately have "length (hex_digits (n div 16)) \<le> j"
      using 1(1) [OF False] by blast
    with False j show ?thesis by (subst hex_digits.simps) simp
  qed
qed

lemma length_dec_digits: "n < 10 ^ k \<Longrightarrow> 0 < k \<Longrightarrow> length (dec_digits n) \<le> k"
proof (induction n arbitrary: k rule: dec_digits.induct)
  case (1 n)
  show ?case
  proof (cases "n < 10")
    case True
    with 1(3) show ?thesis by (subst dec_digits.simps) simp
  next
    case False
    with 1(2,3) obtain j where j: "k = Suc j" by (cases k) auto
    with False 1(2) have "0 < j" by (cases j) auto
    moreover from j 1(2) have "n div 10 < 10 ^ j"
      by (simp add: less_mult_imp_div_less mult.commute)
    ultimately have "length (dec_digits (n div 10)) \<le> j"
      using 1(1) [OF False] by blast
    with False j show ?thesis by (subst dec_digits.simps) simp
  qed
qed

lemma dec_digits_decimal: "c \<in> set (dec_digits n) \<Longrightarrow> c \<in> set ''0123456789''"
proof (induction n rule: dec_digits.induct)
  case (1 n)
  have d: "digit_char m \<in> set ''0123456789''" if "m < 10" for m
  proof -
    from that have "m \<in> {0, 1, 2, 3, 4, 5, 6, 7, 8, 9}" by auto
    then show ?thesis by (auto simp add: digit_char_def)
  qed
  show ?case
  proof (cases "n < 10")
    case True
    with 1(2) have "c = digit_char n" by (simp add: dec_digits.simps)
    with True d show ?thesis by blast
  next
    case False
    with 1(2) have "c \<in> set (dec_digits (n div 10)) \<or> c = digit_char (n mod 10)"
      by (subst (asm) dec_digits.simps) auto
    then show ?thesis using 1(1) [OF False] d [of "n mod 10"] by auto
  qed
qed

lemma fmt_zero_pad_chars_pos:
  "c \<in> set (fmt_zero_pad w False ds) \<Longrightarrow> c = CHR ''0'' \<or> c \<in> set ds"
  by (auto simp add: fmt_zero_pad_def Let_def split: if_splits)

lemma fmt_02x_byte:
  assumes "0 \<le> i" and "i < 256"
  shows "length (fmt_02x i) = 2" and "set (fmt_02x i) \<subseteq> set ''0123456789abcdef''"
proof -
  from assms have "nat \<bar>i\<bar> < 16 ^ 2" by simp
  then have "length (hex_digits (nat \<bar>i\<bar>)) \<le> 2"
    by (rule length_hex_digits) simp
  with assms show "length (fmt_02x i) = 2"
    by (simp add: fmt_02x_def fmt_zero_pad_def)
  show "set (fmt_02x i) \<subseteq> set ''0123456789abcdef''"
  proof
    fix c
    assume "c \<in> set (fmt_02x i)"
    with assms have "c = CHR ''0'' \<or> c \<in> set (hex_digits (nat \<bar>i\<bar>))"
      using fmt_zero_pad_chars_pos [of c 2 "hex_digits (nat \<bar>i\<bar>)"] by (simp add: fmt_02x_def)
    moreover have "CHR ''0'' \<in> set ''0123456789abcdef''" by simp
    ultimately show "c \<in> set ''0123456789abcdef''"
      using hex_digits_chars [of c "nat \<bar>i\<bar>"] by blast
  qed
qed

lemma fmt_019d_int64:
  assumes "0 \<le> t" and "t < 2 ^ 63"
  shows "length (fmt_019d t) = 19" and "set (fmt_019d t) \<subseteq> set ''0123456789''"
proof -
  from assms have "nat \<bar>t\<bar> < 10 ^ 19" by simp
  then have "length (dec_digits (nat \<bar>t\<bar>)) \<le> 19"
    by (rule length_dec_digits) simp
  with assms show "length (fmt_019d t) = 19"
    by (simp add: fmt_019d_def fmt_zero_pad_def)
  show "set (fmt_019d t) \<subseteq> set ''0123456789''"
  proof
    fix c
    assume "c \<in> set (fmt_019d t)"
    with assms have "c = CHR ''0'' \<or> c \<in> set (dec_digits (nat \<bar>t\<bar>))"
      using fmt_zero_pad_chars_pos [of c 19 "dec_digits (nat \<bar>t\<bar>)"] by (simp add: fmt_019d_def)
    moreover have "CHR ''0'' \<in> set ''0123456789''" by simp
    ultimately show "c \<in> set ''0123456789''"
      using dec_digits_decimal [of c "nat \<bar>t\<bar>"] by blast
  qed
qed

lemma validateHash_byte:
  assumes "FileTracker_validateHash ft s = Inr (h, dp)"
  shows "0 \<le> dp" and "dp < 256"
proof -
  from assms obtain b :: "8 word" where p: "dp = uint (drop_bit (unat (8 - diskPartPower ft)) b)"
    by (auto simp add: FileTracker_validateHash_def Let_def split: if_splits sum.splits list.splits)
  show "0 \<le> dp" using p by simp
  show "dp < 256" using p uint_lt2p [of "drop_bit (unat (8 - diskPartPower ft)) b"] by simp
qed

lemma index_name_plain: "plain (''filetracker_'' @ fmt_02x i @ ''.sqlite3'')"
  using fmt_02x_no_slash [of i] by (simp add: plain_def)

lemma Join_clean_root:
  assumes "Clean root \<noteq> ''/''" and "Clean root \<noteq> ''.''" and "plain x"
  shows "Join root x = Clean root @ ''/'' @ x"
proof -
  have ne: "root \<noteq> []"
    using assms(2) by (auto simp add: Clean_def)
  define K where "K = foldl (clean_step (hd root = CHR ''/'')) [] (split_slash root)"
  have c: "Clean root = (if hd root = CHR ''/'' then ''/'' @ join_slash (rev K)
      else if K = [] then ''.'' else join_slash (rev K))"
    using ne by (simp add: Clean_def K_def Let_def)
  have k: "K \<noteq> []"
  proof
    assume "K = []"
    with c have "Clean root = ''/'' \<or> Clean root = ''.''"
      by (simp split: if_splits)
    with assms(1,2) show False by blast
  qed
  then have "join_slash (rev K @ [x]) = join_slash (rev K) @ ''/'' @ x"
    by (simp add: join_slash_snoc)
  with c k show ?thesis
    unfolding Join_root_plain [OF assms(3) ne] K_def [symmetric] by simp
qed

lemma fmt_032x_string_hex: "set (fmt_032x_string s) \<subseteq> set ''0123456789abcdef''"
proof
  fix c
  assume "c \<in> set (fmt_032x_string s)"
  then have "c = CHR ''0'' \<or> (\<exists>d. c = digit_char d)"
    by (auto simp add: fmt_032x_string_def hex_of_byte_def Let_def)
  moreover have "CHR ''0'' \<in> set ''0123456789abcdef''" by simp
  ultimately show "c \<in> set ''0123456789abcdef''"
    using digit_char_in by blast
qed

lemma fmt_032x_string_not_Nil: "fmt_032x_string s \<noteq> []"
  using length_fmt_032x_string [of s] by auto

section \<open>The effect of a commit on the table and the files\<close>

lemma select_files_head_max:
  assumes "select_files d h sh = r # rs"
  shows "row_hash r = h \<and> row_shard r = sh \<and> r \<in> set d"
    and "\<forall>r'\<in>set d. row_hash r' = h \<and> row_shard r' = sh \<longrightarrow> row_timestamp r' \<le> row_timestamp r"
proof -
  let ?xs = "filter (\<lambda>r. row_hash r = h \<and> row_shard r = sh) d"
  have st: "set (select_files d h sh) = set ?xs"
    by (simp add: select_files_def)
  with assms have "r \<in> set ?xs" by auto
  then show "row_hash r = h \<and> row_shard r = sh \<and> r \<in> set d" by simp
  have "sorted (map (\<lambda>r. - row_timestamp r) (select_files d h sh))"
    unfolding select_files_def by (rule sorted_sort_key)
  with assms have le: "\<forall>x\<in>set rs. - row_timestamp r \<le> - row_timestamp x"
    by simp
  show "\<forall>r'\<in>set d. row_hash r' = h \<and> row_shard r' = sh \<longrightarrow> row_timestamp r' \<le> row_timestamp r"
  proof (intro ballI impI)
    fix r'
    assume "r' \<in> set d" and "row_hash r' = h \<and> row_shard r' = sh"
    then have "r' \<in> set (select_files d h sh)"
      unfolding st by simp
    with assms have "r' = r \<or> r' \<in> set rs" by simp
    with le show "row_timestamp r' \<le> row_timestamp r" by auto
  qed
qed

lemma filter_update_files:
  "filter (\<lambda>r. row_hash r = h \<and> row_shard r = sh) (update_files d t mh md h sh)
     = map (\<lambda>r. r\<lparr>row_timestamp := t, row_metahash := mh, row_metadata := md\<rparr>)
         (filter (\<lambda>r. row_hash r = h \<and> row_shard r = sh) d)"
  unfolding update_files_def by (induction d) auto

text \<open>
  A commit that returns nil either found a record of the key that is not older and
  left everything as it was, or found only older records (or none): then the file is
  at its final path, and the table of the partition holds the new row, or its rows of
  the key now carry the new timestamp.
\<close>

lemma Commit_effect:
  assumes v: "FileTracker_validateHash ft s = Inr (h, dp)"
    and c: "FileTracker_Commit env cdc ft fls f s sh t mh md = (Return None, ft', fls', f')"
    and p: "FileTracker_wholeFilePath ft s sh t = Inr pth"
  shows "((\<exists>r\<in>set (dbs ft ! nat dp). row_hash r = h \<and> row_shard r = sh \<and> t \<le> row_timestamp r)
          \<and> ft' = ft \<and> fls' = fls)
       \<or> ((\<forall>r\<in>set (dbs ft ! nat dp). row_hash r = h \<and> row_shard r = sh \<longrightarrow> row_timestamp r < t)
          \<and> status f = Writing \<and> fls' pth = Some (written f)
          \<and> path ft' = path ft \<and> diskPartPower ft' = diskPartPower ft
          \<and> length (dbs ft') = length (dbs ft)
          \<and> (\<exists>mh1 md1.
               filter (\<lambda>r. row_hash r = h \<and> row_shard r = sh) (dbs ft' ! nat dp)
                 = (if filter (\<lambda>r. row_hash r = h \<and> row_shard r = sh) (dbs ft ! nat dp) = []
                    then [\<lparr>row_hash = h, row_shard = sh, row_timestamp = t,
                           row_metahash = mh, row_metadata = md\<rparr>]
                    else map (\<lambda>r. r\<lparr>row_timestamp := t, row_metahash := mh1, row_metadata := md1\<rparr>)
                           (filter (\<lambda>r. row_hash r = h \<and> row_shard r = sh) (dbs ft ! nat dp)))))"
proof -
  let ?key = "\<lambda>r. row_hash r = h \<and> row_shard r = sh"
  let ?d = "dbs ft ! nat dp"
  from Commit_None [OF c] v obtain f1 where
    rg: "nat dp < length (dbs ft)" and
    tx: "Commit_tx env cdc ft fls f (nat dp) h sh t mh md = (None, ft', fls', f1)"
    by auto
  have vh: "FileTracker_validateHash ft h = Inr (h, dp)"
    using v by (rule validateHash_normal)
  have ph: "FileTracker_wholeFilePath ft h sh t = Inr pth"
    using p wholeFilePath_valid [OF vh, of sh t] wholeFilePath_valid [OF v, of sh t] by simp
  have pne: "pth \<noteq> []"
    using p by (rule wholeFilePath_not_Nil)
  from Commit_tx_None [OF tx] consider
    (A) "select_files ?d h sh = []"
        "Commit_publish env ft fls f (nat dp) h sh t mh md [] = (None, ft', fls', f1)"
  | (B) r rs where "select_files ?d h sh = r # rs" "t \<le> row_timestamp r" "ft' = ft" "fls' = fls"
  | (C) r rs ro mh1 md1 lg where "select_files ?d h sh = r # rs" "row_timestamp r < t"
        "FileTracker_wholeFilePath ft h sh (row_timestamp r) = Inr ro"
        "Commit_publish env (ft\<lparr>logger := lg\<rparr>) fls f (nat dp) h sh t mh1 md1 ro
           = (None, ft', fls', f1)"
    by blast
  then show ?thesis
  proof cases
    case A
    from A(1) have none: "filter ?key ?d = []"
      by (simp add: select_files_Nil_iff)
    then have old: "\<forall>r\<in>set ?d. ?key r \<longrightarrow> row_timestamp r < t"
      by (auto simp add: filter_empty_conv)
    let ?row = "\<lparr>row_hash = h, row_shard = sh, row_timestamp = t,
                           row_metahash = mh, row_metadata = md\<rparr>"
    from Commit_publish_None [OF A(2)] ph obtain d where
      pb: "status f = Writing" "insert_files ?d ?row = Inr d" "dbs ft' = (dbs ft)[nat dp := d]"
        "path ft' = path ft" "diskPartPower ft' = diskPartPower ft"
        "\<forall>q. q \<noteq> [] \<longrightarrow> fls' q = (fls(pth \<mapsto> written f)) q"
      by auto
    from pb(2) have "d = ?d @ [?row]"
      using insert_files_fresh(1) [OF A(1), of ?row] by simp
    with none pb(3) rg have "filter ?key (dbs ft' ! nat dp) = [?row]"
      by simp
    with none old pb pne show ?thesis
      by simp
  next
    case B
    from select_files_head_max(1) [OF B(1)] B(2-4) show ?thesis
      by blast
  next
    case C
    from select_files_head_max [OF C(1)] C(2)
    have old: "\<forall>r\<in>set ?d. ?key r \<longrightarrow> row_timestamp r < t"
      and some: "filter ?key ?d \<noteq> []"
      by (force, auto simp add: filter_empty_conv)
    have ro: "ro \<noteq> pth" "ro \<noteq> []"
      using wholeFilePath_inj [OF vh, of sh "row_timestamp r" t] C(2,3) ph
        wholeFilePath_not_Nil [OF C(3)]
      by auto
    from Commit_publish_None [OF C(4)] ph ro(2) obtain d where
      pb: "status f = Writing" "d = update_files ?d t mh1 md1 h sh" "dbs ft' = (dbs ft)[nat dp := d]"
        "path ft' = path ft" "diskPartPower ft' = diskPartPower ft"
        "\<forall>q. q \<noteq> ro \<longrightarrow> fls' q = (fls(pth \<mapsto> written f)) q"
      by auto
    from pb(2,3) rg have "filter ?key (dbs ft' ! nat dp)
        = map (\<lambda>r. r\<lparr>row_timestamp := t, row_metahash := mh1, row_metadata := md1\<rparr>)
            (filter ?key ?d)"
      by (simp add: filter_update_files)
    with some old pb ro(1) show ?thesis
      by auto
  qed
qed

section \<open>The name of the hash in a file name\<close>

lemma digit_char_inj:
  assumes "a < 16" and "b < 16" and "digit_char a = digit_char b"
  shows "a = b"
proof -
  have d: "distinct ''0123456789abcdef''"
    by simp
  have "''0123456789abcdef'' ! a = ''0123456789abcdef'' ! b"
    using assms by (simp add: digit_char_def)
  with assms(1,2) show ?thesis
    using nth_eq_iff_index_eq [OF d, of a b] by simp
qed

lemma hex_of_byte_inj:
  assumes "hex_of_byte c = hex_of_byte d"
  shows "c = d"
proof -
  let ?m = "of_char c :: nat" and ?n = "of_char d :: nat"
  have b: "?m < 256" "?n < 256"
    by simp_all
  then have "?m div 16 < 16" "?n div 16 < 16" "?m mod 16 < 16" "?n mod 16 < 16"
    by arith+
  moreover from assms have "digit_char (?m div 16) = digit_char (?n div 16)"
    "digit_char (?m mod 16) = digit_char (?n mod 16)"
    by (simp_all add: hex_of_byte_def)
  ultimately have "?m div 16 = ?n div 16" "?m mod 16 = ?n mod 16"
    by (blast intro: digit_char_inj)+
  then have "?m = ?n"
    by (metis div_mult_mod_eq)
  then show ?thesis
    by simp
qed

lemma concat_hex_inj:
  "concat (map hex_of_byte s) = concat (map hex_of_byte s') \<Longrightarrow> s = s'"
proof (induction s arbitrary: s')
  case Nil
  then show ?case
    by (cases s') (simp_all add: hex_of_byte_def)
next
  case (Cons c cs)
  then obtain d ds where s': "s' = d # ds"
    by (cases s') (simp_all add: hex_of_byte_def)
  have l: "length (hex_of_byte c) = length (hex_of_byte d)"
    by (simp add: hex_of_byte_def)
  from Cons.prems have "hex_of_byte c @ concat (map hex_of_byte cs)
      = hex_of_byte d @ concat (map hex_of_byte ds)"
    unfolding s' by simp
  with l have "hex_of_byte c = hex_of_byte d"
    and "concat (map hex_of_byte cs) = concat (map hex_of_byte ds)"
    by simp_all
  with Cons.IH [of ds] show ?case
    unfolding s' by (simp add: hex_of_byte_inj)
qed

lemma length_concat_hex: "length (concat (map hex_of_byte s)) = 2 * length s"
  by (induction s) (simp_all add: hex_of_byte_def)

lemma fmt_032x_string_inj:
  assumes "is_hash a" and "is_hash b" and "fmt_032x_string a = fmt_032x_string b"
  shows "a = b"
proof -
  have "fmt_032x_string s = concat (map hex_of_byte s)" if "is_hash s" for s
    using that by (simp add: fmt_032x_string_def Let_def length_concat_hex is_hash_def)
  with assms show ?thesis
    by (simp add: concat_hex_inj)
qed

section \<open>The index files that start-up opens\<close>

lemma shift_one_power:
  assumes "1 \<le> p" and "p \<le> 8"
  shows "shift_one p = 2 ^ unat p" and "\<not> make_panics (shift_one p)"
proof -
  have "1 \<le> unat p" "unat p \<le> 8"
    using assms by (simp_all add: word_le_nat_alt)
  then have "unat p = 1 \<or> unat p = 2 \<or> unat p = 3 \<or> unat p = 4 \<or> unat p = 5
      \<or> unat p = 6 \<or> unat p = 7 \<or> unat p = 8"
    by arith
  then show "shift_one p = 2 ^ unat p" and "\<not> make_panics (shift_one p)"
    by (auto simp add: shift_one_def make_panics_def)
qed

lemma index_path_layout:
  assumes "Clean root \<noteq> ''/''" and "Clean root \<noteq> ''.''"
  shows "index_path root i = Clean root @ ''/filetracker_'' @ fmt_02x i @ ''.sqlite3''"
  unfolding index_path_def using Join_clean_root [OF assms index_name_plain, of i] by simp

lemma NewFileTracker_loop_open_fails:
  assumes "\<forall>q. mkdirall_err env q = None"
    and "\<forall>j. i \<le> j \<and> j < k \<longrightarrow>
           open_err env (index_path root j) = None \<and> (\<exists>d. FileTracker_init env (nat j) = Inr d)"
    and "open_err env (index_path root k) = Some e"
    and "0 \<le> i" and "i \<le> k" and "k < n"
  shows "fst (NewFileTracker_loop env root n i ds opened) = Inl e"
  using assms
proof (induction "nat (k - i)" arbitrary: i ds opened)
  case 0
  then have "i = k"
    by simp
  with 0 show ?case
    by (subst NewFileTracker_loop.simps) simp
next
  case (Suc m)
  then have lt: "i < k"
    by simp
  with Suc.prems obtain d where
    o: "open_err env (index_path root i) = None" "FileTracker_init env (nat i) = Inr d"
    by auto
  have "fst (NewFileTracker_loop env root n (i + 1) (ds @ [d]) (opened @ [nat i])) = Inl e"
  proof (rule Suc.hyps(1))
    show "m = nat (k - (i + 1))"
      using Suc.hyps(2) by simp
    show "\<forall>j. i + 1 \<le> j \<and> j < k \<longrightarrow>
        open_err env (index_path root j) = None \<and> (\<exists>d. FileTracker_init env (nat j) = Inr d)"
      using Suc.prems(2) by simp
  qed (use Suc.prems lt in simp_all)
  with o lt Suc.prems(1,4,6) show ?case
    by (subst NewFileTracker_loop.simps) simp
qed

lemma NewFileTracker_open_fails:
  assumes "1 \<le> p" and "p \<le> 8"
    and "\<forall>q. mkdirall_err env q = None"
    and "\<forall>j. 0 \<le> j \<and> j < k \<longrightarrow>
           open_err env (index_path root j) = None \<and> (\<exists>d. FileTracker_init env (nat j) = Inr d)"
    and "open_err env (index_path root k) = Some e"
    and "0 \<le> k" and "k < 2 ^ unat p"
  shows "fst (NewFileTracker env root p lg) = Return (Inl e)"
proof -
  have "fst (NewFileTracker_loop env root (2 ^ unat p) 0 [] []) = Inl e"
    using assms(3-7) by (intro NewFileTracker_loop_open_fails) simp_all
  then show ?thesis
    using assms(3) shift_one_power [OF assms(1,2)]
    by (auto simp add: NewFileTracker_def split: prod.splits sum.splits)
qed

lemma example_commit:
  "FileTracker_Commit quiet cdc example_tracker Map.empty (new_writer ''blob'')
      ''7FFFFFFFFFFFFFFFFFFFFFFFFFFFFFFF'' 0 1 mh md
     = (Return None, tracker_with (stored_row 1 mh md), [blob_7f_1 \<mapsto> ''blob''],
        \<lparr>written = ''blob'', status = Saved\<rparr>)"
proof -
  have v: "FileTracker_validateHash ft ''7FFFFFFFFFFFFFFFFFFFFFFFFFFFFFFF'' = Inr (hash_7f, 31)"
    if "diskPartPower ft = 6" for ft
    using that by (rule validateHash_power6)
  show ?thesis
    by (simp add: FileTracker_Commit_def Commit_tx_def Commit_publish_def v example_blob_path
        select_files_def insert_files_def Save_def Abandon_def quiet_def new_writer_def
        tracker_with_def stored_row_def blob_7f_1_def)
qed

text \<open>
  Claim C4, amended. Take a tracker as the constructors build it, under a root that is,
  once cleaned, neither \<^verbatim>\<open>/\<close> nor \<^verbatim>\<open>.\<close> (under these two the paths below have no
  \<^verbatim>\<open><root>/\<close> in front). Every hash has a name in the file names: a non-empty string
  of lower-case hexadecimal digits that depends on the lower-cased hash only, and
  different hashes have different names. For every valid hash, shard from 0 to 255 and
  non-negative 64-bit timestamp, with the partition \<open>dp\<close> of the hash,
  \<^verbatim>\<open>wholeFilePath\<close> is the cleaned root, then \<^verbatim>\<open>/\<close>, the two hexadecimal digits of the
  partition, \<^verbatim>\<open>/\<close>, the name of the hash, \<^verbatim>\<open>.\<close>, the two hexadecimal digits of the shard,
  \<^verbatim>\<open>.\<close>, and the 19 decimal digits of the timestamp; and a \<^verbatim>\<open>Commit\<close> that returns
  nil while every record stored for the key is older has left the content of its
  writer in the file at that path. The index of partition \<open>k\<close> is the file
  \<^verbatim>\<open>filetracker_\<close>, two hexadecimal digits of \<open>k\<close>, \<^verbatim>\<open>.sqlite3\<close>, directly under the
  cleaned root: when \<^verbatim>\<open>sql.Open\<close> fails on that file, and nothing failed for the
  partitions before it, \<^verbatim>\<open>NewFileTracker\<close> returns that error.
\<close>

theorem blob_and_index_layout:
  assumes "tracker_ok ft" and "Clean (path ft) \<noteq> ''/''" and "Clean (path ft) \<noteq> ''.''"
  shows "\<exists>name.
      (\<forall>a b. is_hash a \<and> is_hash b \<and> name (ToLower a) = name (ToLower b)
          \<longrightarrow> ToLower a = ToLower b)
    \<and> (\<forall>s sh t h dp.
          FileTracker_validateHash ft s = Inr (h, dp) \<and> 0 \<le> sh \<and> sh < 256 \<and> 0 \<le> t \<and> t < 2 ^ 63
          \<longrightarrow> h = ToLower s \<and> name h \<noteq> [] \<and> set (name h) \<subseteq> set ''0123456789abcdef''
            \<and> 0 \<le> dp \<and> dp < 2 ^ unat (diskPartPower ft)
            \<and> length (fmt_02x dp) = 2 \<and> set (fmt_02x dp) \<subseteq> set ''0123456789abcdef''
            \<and> length (fmt_02x sh) = 2 \<and> set (fmt_02x sh) \<subseteq> set ''0123456789abcdef''
            \<and> length (fmt_019d t) = 19 \<and> set (fmt_019d t) \<subseteq> set ''0123456789''
            \<and> FileTracker_wholeFilePath ft s sh t
                = Inr (Clean (path ft) @ ''/'' @ fmt_02x dp @ ''/'' @ name h @ ''.'' @ fmt_02x sh
                        @ ''.'' @ fmt_019d t)
            \<and> (\<forall>env (cdc :: 's codec) fls f mh md ft' fls' f'.
                  FileTracker_Commit env cdc ft fls f s sh t mh md = (Return None, ft', fls', f')
                  \<and> (\<forall>r\<in>set (dbs ft ! nat dp).
                        row_hash r = h \<and> row_shard r = sh \<longrightarrow> row_timestamp r < t)
                  \<longrightarrow> fls' (Clean (path ft) @ ''/'' @ fmt_02x dp @ ''/'' @ name h @ ''.''
                             @ fmt_02x sh @ ''.'' @ fmt_019d t) = Some (written f)))
    \<and> (\<forall>env lg k e.
          (\<forall>q. mkdirall_err env q = None) \<and> 0 \<le> k \<and> k < 2 ^ unat (diskPartPower ft)
          \<and> (\<forall>j. 0 \<le> j \<and> j < k \<longrightarrow>
                open_err env (Clean (path ft) @ ''/filetracker_'' @ fmt_02x j @ ''.sqlite3'') = None
                \<and> (\<exists>d. FileTracker_init env (nat j) = Inr d))
          \<and> open_err env (Clean (path ft) @ ''/filetracker_'' @ fmt_02x k @ ''.sqlite3'') = Some e
          \<longrightarrow> fst (NewFileTracker env (path ft) (diskPartPower ft) lg) = Return (Inl e))"
proof -
  let ?root = "Clean (path ft)"
  let ?name = fmt_032x_string
  have inj: "\<forall>a b. is_hash a \<and> is_hash b \<and> ?name (ToLower a) = ?name (ToLower b)
      \<longrightarrow> ToLower a = ToLower b"
    using fmt_032x_string_inj by (simp add: is_hash_ToLower)
  have blob: "\<forall>s sh t h dp.
          FileTracker_validateHash ft s = Inr (h, dp) \<and> 0 \<le> sh \<and> sh < 256 \<and> 0 \<le> t \<and> t < 2 ^ 63
          \<longrightarrow> h = ToLower s \<and> ?name h \<noteq> [] \<and> set (?name h) \<subseteq> set ''0123456789abcdef''
            \<and> 0 \<le> dp \<and> dp < 2 ^ unat (diskPartPower ft)
            \<and> length (fmt_02x dp) = 2 \<and> set (fmt_02x dp) \<subseteq> set ''0123456789abcdef''
            \<and> length (fmt_02x sh) = 2 \<and> set (fmt_02x sh) \<subseteq> set ''0123456789abcdef''
            \<and> length (fmt_019d t) = 19 \<and> set (fmt_019d t) \<subseteq> set ''0123456789''
            \<and> FileTracker_wholeFilePath ft s sh t
                = Inr (?root @ ''/'' @ fmt_02x dp @ ''/'' @ ?name h @ ''.'' @ fmt_02x sh
                        @ ''.'' @ fmt_019d t)
            \<and> (\<forall>env (cdc :: 's codec) fls f mh md ft' fls' f'.
                  FileTracker_Commit env cdc ft fls f s sh t mh md = (Return None, ft', fls', f')
                  \<and> (\<forall>r\<in>set (dbs ft ! nat dp).
                        row_hash r = h \<and> row_shard r = sh \<longrightarrow> row_timestamp r < t)
                  \<longrightarrow> fls' (?root @ ''/'' @ fmt_02x dp @ ''/'' @ ?name h @ ''.''
                             @ fmt_02x sh @ ''.'' @ fmt_019d t) = Some (written f))"
  proof (intro allI impI)
    fix s h and sh t dp :: int
    assume a: "FileTracker_validateHash ft s = Inr (h, dp) \<and> 0 \<le> sh \<and> sh < 256 \<and> 0 \<le> t \<and> t < 2 ^ 63"
    then have v: "FileTracker_validateHash ft s = Inr (h, dp)"
      and sh: "0 \<le> sh" "sh < 256" and t: "0 \<le> t" "t < 2 ^ 63"
      by simp_all
    let ?pth = "?root @ ''/'' @ fmt_02x dp @ ''/'' @ ?name h @ ''.'' @ fmt_02x sh
                        @ ''.'' @ fmt_019d t"
    have h: "h = ToLower s"
      using v by (rule validateHash_Inr_is_hash)
    have dp: "0 \<le> dp" "dp < 256"
      using v by (rule validateHash_byte)+
    have "nat dp < 2 ^ unat (diskPartPower ft)"
      using validateHash_partition_range(2) [OF v assms(1)] assms(1) by (simp add: tracker_ok_def)
    then have dpp: "dp < 2 ^ unat (diskPartPower ft)"
      by (simp add: nat_less_iff)
    have pth: "FileTracker_wholeFilePath ft s sh t = Inr ?pth"
      using wholeFilePath_valid [OF v, of sh t]
        Join_clean_root [OF assms(2,3) fmt_02x_plain, of dp]
      by simp
    have commit: "\<forall>env (cdc :: 's codec) fls f mh md ft' fls' f'.
        FileTracker_Commit env cdc ft fls f s sh t mh md = (Return None, ft', fls', f')
        \<and> (\<forall>r\<in>set (dbs ft ! nat dp).
              row_hash r = h \<and> row_shard r = sh \<longrightarrow> row_timestamp r < t)
        \<longrightarrow> fls' ?pth = Some (written f)"
    proof (intro allI impI)
      fix env and cdc :: "'s codec" and fls f mh md ft' fls' f'
      assume c: "FileTracker_Commit env cdc ft fls f s sh t mh md = (Return None, ft', fls', f')
        \<and> (\<forall>r\<in>set (dbs ft ! nat dp).
              row_hash r = h \<and> row_shard r = sh \<longrightarrow> row_timestamp r < t)"
      then have "\<not> (\<exists>r\<in>set (dbs ft ! nat dp).
          row_hash r = h \<and> row_shard r = sh \<and> t \<le> row_timestamp r)"
        by force
      with Commit_effect [OF v _ pth, of env cdc fls f mh md ft' fls' f'] c
      show "fls' ?pth = Some (written f)"
        by blast
    qed
    from h dp(1) dpp pth commit fmt_032x_string_not_Nil [of h] fmt_032x_string_hex [of h]
      fmt_02x_byte [OF dp] fmt_02x_byte [OF sh] fmt_019d_int64 [OF t]
    show "h = ToLower s \<and> ?name h \<noteq> [] \<and> set (?name h) \<subseteq> set ''0123456789abcdef''
            \<and> 0 \<le> dp \<and> dp < 2 ^ unat (diskPartPower ft)
            \<and> length (fmt_02x dp) = 2 \<and> set (fmt_02x dp) \<subseteq> set ''0123456789abcdef''
            \<and> length (fmt_02x sh) = 2 \<and> set (fmt_02x sh) \<subseteq> set ''0123456789abcdef''
            \<and> length (fmt_019d t) = 19 \<and> set (fmt_019d t) \<subseteq> set ''0123456789''
            \<and> FileTracker_wholeFilePath ft s sh t = Inr ?pth
            \<and> (\<forall>env (cdc :: 's codec) fls f mh md ft' fls' f'.
                  FileTracker_Commit env cdc ft fls f s sh t mh md = (Return None, ft', fls', f')
                  \<and> (\<forall>r\<in>set (dbs ft ! nat dp).
                        row_hash r = h \<and> row_shard r = sh \<longrightarrow> row_timestamp r < t)
                  \<longrightarrow> fls' ?pth = Some (written f))"
      by (intro conjI)
  qed
  have idx: "\<forall>env lg k e.
          (\<forall>q. mkdirall_err env q = None) \<and> 0 \<le> k \<and> k < 2 ^ unat (diskPartPower ft)
          \<and> (\<forall>j. 0 \<le> j \<and> j < k \<longrightarrow>
                open_err env (?root @ ''/filetracker_'' @ fmt_02x j @ ''.sqlite3'') = None
                \<and> (\<exists>d. FileTracker_init env (nat j) = Inr d))
          \<and> open_err env (?root @ ''/filetracker_'' @ fmt_02x k @ ''.sqlite3'') = Some e
          \<longrightarrow> fst (NewFileTracker env (path ft) (diskPartPower ft) lg) = Return (Inl e)"
  proof (intro allI impI)
    fix env lg k e
    assume a: "(\<forall>q. mkdirall_err env q = None) \<and> 0 \<le> k \<and> k < 2 ^ unat (diskPartPower ft)
          \<and> (\<forall>j. 0 \<le> j \<and> j < k \<longrightarrow>
                open_err env (?root @ ''/filetracker_'' @ fmt_02x j @ ''.sqlite3'') = None
                \<and> (\<exists>d. FileTracker_init env (nat j) = Inr d))
          \<and> open_err env (?root @ ''/filetracker_'' @ fmt_02x k @ ''.sqlite3'') = Some e"
    have p: "1 \<le> diskPartPower ft" "diskPartPower ft \<le> 8"
      using assms(1) by (simp_all add: tracker_ok_def)
    show "fst (NewFileTracker env (path ft) (diskPartPower ft) lg) = Return (Inl e)"
      using a by (intro NewFileTracker_open_fails [OF p, where k = k])
        (simp_all add: index_path_layout [OF assms(2,3)])
  qed
  from inj blob idx show ?thesis
    by (intro exI [of _ ?name] conjI)
qed

theorem blob_and_index_layout_witness:
  "tracker_ok example_tracker \<and> Clean (path example_tracker) = ''/srv/node/d1''
   \<and> (\<exists>name. name \<noteq> [] \<and> set name \<subseteq> set ''0123456789abcdef''
        \<and> FileTracker_wholeFilePath example_tracker ''7FFFFFFFFFFFFFFFFFFFFFFFFFFFFFFF'' 0 1
            = Inr (''/srv/node/d1/1f/'' @ name @ ''.00.0000000000000000001'')
        \<and> fst (snd (snd (FileTracker_Commit quiet text_codec example_tracker Map.empty
              (new_writer ''blob'') ''7FFFFFFFFFFFFFFFFFFFFFFFFFFFFFFF'' 0 1 ''#a'' ''a'')))
            (''/srv/node/d1/1f/'' @ name @ ''.00.0000000000000000001'') = Some ''blob'')
   \<and> fst (NewFileTracker open_01_fails ''/srv/node/d1'' 6 [])
       = Return (Inl (External ''unable to open database file''))"
proof -
  have cl: "Clean (path example_tracker) = ''/srv/node/d1''"
    by (simp add: Clean_def clean_step_def)
  have ne: "Clean (path example_tracker) \<noteq> ''/''" "Clean (path example_tracker) \<noteq> ''.''"
    unfolding cl by simp_all
  have f: "fmt_02x 31 = ''1f''" "fmt_02x 0 = ''00''" "fmt_02x 1 = ''01''"
      "fmt_019d 1 = ''0000000000000000001''"
    by (simp_all add: fmt_eval)
  have v: "FileTracker_validateHash example_tracker ''7FFFFFFFFFFFFFFFFFFFFFFFFFFFFFFF''
      = Inr (hash_7f, 31)"
    by (rule validateHash_power6) simp
  have d: "dbs example_tracker ! nat 31 = []"
    by (simp add: example_tracker_def)
  have m: "\<forall>q. mkdirall_err open_01_fails q = None"
    by (simp add: open_01_fails_def quiet_def)
  have o: "open_err open_01_fails (''/srv/node/d1'' @ ''/filetracker_'' @ fmt_02x 1 @ ''.sqlite3'')
        = Some (External ''unable to open database file'')"
      "open_err open_01_fails (''/srv/node/d1'' @ ''/filetracker_'' @ fmt_02x 0 @ ''.sqlite3'')
        = None"
    unfolding f by (simp_all add: open_01_fails_def quiet_def)
  have o': "\<forall>j. 0 \<le> j \<and> j < 1 \<longrightarrow>
      open_err open_01_fails (''/srv/node/d1'' @ ''/filetracker_'' @ fmt_02x j @ ''.sqlite3'') = None
      \<and> (\<exists>d. FileTracker_init open_01_fails (nat j) = Inr d)"
  proof (intro allI impI)
    fix j :: int
    assume "0 \<le> j \<and> j < 1"
    then have "j = 0"
      by simp
    with o(2) init_quiet(2) [of 0]
    show "open_err open_01_fails (''/srv/node/d1'' @ ''/filetracker_'' @ fmt_02x j @ ''.sqlite3'')
        = None \<and> (\<exists>d. FileTracker_init open_01_fails (nat j) = Inr d)"
      by simp
  qed
  note layout = blob_and_index_layout [OF example_tracker_ok(1) ne,
      where ?'s = "(string \<times> string) list", unfolded cl, unfolded example_tracker_fields]
  from layout show ?thesis
  proof (elim exE conjE, goal_cases)
    case (1 name)
    from 1(2) [rule_format, where s = "''7FFFFFFFFFFFFFFFFFFFFFFFFFFFFFFF''" and h = hash_7f
        and dp = 31 and sh = 0 and t = 1] v
    have b: "name hash_7f \<noteq> [] \<and> set (name hash_7f) \<subseteq> set ''0123456789abcdef''
      \<and> FileTracker_wholeFilePath example_tracker ''7FFFFFFFFFFFFFFFFFFFFFFFFFFFFFFF'' 0 1
          = Inr (''/srv/node/d1/1f/'' @ name hash_7f @ ''.00.0000000000000000001'')
      \<and> (\<forall>env (cdc :: (string \<times> string) list codec) fls f mh md ft' fls' f'.
            FileTracker_Commit env cdc example_tracker fls f ''7FFFFFFFFFFFFFFFFFFFFFFFFFFFFFFF''
                0 1 mh md = (Return None, ft', fls', f')
            \<longrightarrow> fls' (''/srv/node/d1/1f/'' @ name hash_7f @ ''.00.0000000000000000001'')
                  = Some (written f))"
      unfolding f d by simp
    note c = b [THEN conjunct2, THEN conjunct2, THEN conjunct2, rule_format,
        OF example_commit [of text_codec "''#a''" "''a''"]]
    have "fst (snd (snd (FileTracker_Commit quiet text_codec example_tracker Map.empty
              (new_writer ''blob'') ''7FFFFFFFFFFFFFFFFFFFFFFFFFFFFFFF'' 0 1 ''#a'' ''a'')))
        = [blob_7f_1 \<mapsto> ''blob'']"
      by (simp only: example_commit fst_conv snd_conv)
    with c have "fst (snd (snd (FileTracker_Commit quiet text_codec example_tracker Map.empty
              (new_writer ''blob'') ''7FFFFFFFFFFFFFFFFFFFFFFFFFFFFFFF'' 0 1 ''#a'' ''a'')))
            (''/srv/node/d1/1f/'' @ name hash_7f @ ''.00.0000000000000000001'') = Some ''blob''"
      by (simp only: new_writer_def AtomicFileWriter.simps)
    moreover have "fst (NewFileTracker open_01_fails ''/srv/node/d1'' 6 [])
       = Return (Inl (External ''unable to open database file''))"
      using m o(1) o' by (intro 1(3) [rule_format, where k = 1]) simp
    ultimately show ?case
      using b example_tracker_ok(1) cl by blast
  qed
qed

text \<open>
  Claim C4 as stated fails. For the hash \<^verbatim>\<open>7fff...f\<close>, shard 0 and timestamp 1 under the
  root \<^verbatim>\<open>/srv/node/d1\<close> the blob is not at the path with the 32 characters of the hash,
  and the index of partition \<^verbatim>\<open>1f\<close> is not inside the directory of the partition.
\<close>

theorem layout_counterexample:
  "FileTracker_wholeFilePath example_tracker hash_7f 0 1
     \<noteq> Inr ''/srv/node/d1/1f/7fffffffffffffffffffffffffffffff.00.0000000000000000001''
   \<and> index_path ''/srv/node/d1'' 31 \<noteq> ''/srv/node/d1/1f/filetracker_1f.sqlite3''"
proof -
  have "fmt_02x 31 = ''1f''"
    by (simp add: fmt_eval)
  then have "index_path ''/srv/node/d1'' 31 = ''/srv/node/d1/filetracker_1f.sqlite3''"
    by (simp add: index_path_def Join_def Clean_def clean_step_def)
  then show ?thesis
    by (simp add: example_blob_path)
qed

section \<open>A merged store that does not encode\<close>



lemma text_codec_fields [simp]:
  "json_Unmarshal text_codec = json_decode"
  "json_Marshal text_codec = json_encode"
  "Store_Absorb text_codec st other = st @ filter (\<lambda>(k, v). k \<notin> fst ` set st) other"
  "Store_Hash text_codec st = ''#'' @ json_pairs st"
  by (simp_all add: text_codec_def)




lemma blob_7f_distinct [simp]:
  "blob_7f_1 \<noteq> blob_7f_2" "blob_7f_2 \<noteq> blob_7f_1" "blob_7f_1 \<noteq> []" "blob_7f_2 \<noteq> []"
  by (simp_all add: blob_7f_1_def blob_7f_2_def)

lemma quiet_fields [simp]:
  "begin_err quiet p = None" "query_err quiet p = None" "rows_err quiet p = None"
  "scan_err quiet p = None" "exec_err quiet p = None" "commit_err quiet p = None"
  "save_err quiet q = None" "remove_err quiet q = None" "tempfile_err quiet q = None"
  by (simp_all add: quiet_def)

lemma select_stored_row [simp]:
  "select_files [stored_row t mh md] hash_7f 0 = [stored_row t mh md]"
  by (simp add: select_files_def stored_row_def)

lemma stored_row_fields [simp]:
  "row_hash (stored_row t mh md) = hash_7f" "row_shard (stored_row t mh md) = 0"
  "row_timestamp (stored_row t mh md) = t" "row_metahash (stored_row t mh md) = mh"
  "row_metadata (stored_row t mh md) = md"
  by (simp_all add: stored_row_def)

lemma update_stored_row [simp]:
  "update_files [stored_row t mh md] t' mh' md' hash_7f 0 = [stored_row t' mh' md']"
  by (simp add: update_files_def stored_row_def)



section \<open>The two copies\<close>

lemma commit_reconcile_eq:
  "commit_reconcile cdc lg mh md dbmh dbmd = Commit_reconcile cdc lg mh md dbmh dbmd"
  unfolding commit_reconcile_def Commit_reconcile_def
  by (rule refl)

lemma commit_publish_eq:
  "commit_publish env ft fls f p h sh t mh md ro = Commit_publish env ft fls f p h sh t mh md ro"
  unfolding commit_publish_def Commit_publish_def fileTracker_wholeFilePath_eq
  by (rule refl)

lemma commit_tx_eq:
  "commit_tx env cdc ft fls f p h sh t mh md = Commit_tx env cdc ft fls f p h sh t mh md"
  unfolding commit_tx_def Commit_tx_def fileTracker_wholeFilePath_eq commit_reconcile_eq
    commit_publish_eq
  by (rule refl)

lemma fileTracker_commit_eq:
  "fileTracker_commit env cdc ft fls f s sh t mh md = FileTracker_Commit env cdc ft fls f s sh t mh md"
  unfolding fileTracker_commit_def FileTracker_Commit_def fileTracker_validateHash_eq
    commit_tx_eq
  by (rule refl)

lemma fileTracker_item_eq: "fileTracker_item r = as_fileTrackerItem (FileTracker_item r)"
  by (simp add: fileTracker_item_def FileTracker_item_def as_fileTrackerItem_def)

lemma fileTracker_item_comp: "fileTracker_item = as_fileTrackerItem \<circ> FileTracker_item"
  by (simp add: fun_eq_iff fileTracker_item_eq)

lemma fileTracker_list_loop_eq:
  "fileTracker_list_loop env ft a b i j (map as_fileTrackerItem acc)
     = as_fileTracker_listing (FileTracker_List_loop env ft a b i j acc)"
proof (induction env ft a b i j acc rule: FileTracker_List_loop.induct)
  case (1 env ft startHash stopHash diskPart stopDiskPart listing)
  show ?case
  proof (cases "diskPart \<le> stopDiskPart \<and> 0 \<le> diskPart \<and> nat diskPart < length (dbs ft)
      \<and> query_err env (nat diskPart) = None
      \<and> \<not> ((if rows_err env (nat diskPart) \<noteq> None then []
               else select_between (dbs ft ! nat diskPart) startHash stopHash) \<noteq> []
             \<and> scan_err env (nat diskPart) \<noteq> None)
      \<and> rows_err env (nat diskPart) = None")
    case True
    then have t: "diskPart \<le> stopDiskPart" "0 \<le> diskPart" "nat diskPart < length (dbs ft)"
        "query_err env (nat diskPart) = None" "rows_err env (nat diskPart) = None"
      by simp_all
    with True have sc: "select_between (dbs ft ! nat diskPart) startHash stopHash = []
        \<or> scan_err env (nat diskPart) = None"
      by simp
    from t sc have ih: "fileTracker_list_loop env ft startHash stopHash (diskPart + 1) stopDiskPart
        (map as_fileTrackerItem
           (listing @ map FileTracker_item (select_between (dbs ft ! nat diskPart) startHash stopHash)))
      = as_fileTracker_listing (FileTracker_List_loop env ft startHash stopHash (diskPart + 1)
          stopDiskPart
          (listing @ map FileTracker_item (select_between (dbs ft ! nat diskPart) startHash stopHash)))"
      using "1.IH" [of "select_between (dbs ft ! nat diskPart) startHash stopHash"
          "listing @ map FileTracker_item (select_between (dbs ft ! nat diskPart) startHash stopHash)"]
      by simp
    from t sc show ?thesis
      by (subst fileTracker_list_loop.simps, subst FileTracker_List_loop.simps)
         (auto simp add: ih [symmetric] fileTracker_item_comp Let_def)
  next
    case False
    then show ?thesis
      by (subst fileTracker_list_loop.simps, subst FileTracker_List_loop.simps)
         (auto simp add: as_fileTracker_listing_def fileTracker_item_comp Let_def
            split: option.splits)
  qed
qed

lemma fileTracker_list_eq:
  "fileTracker_list env ft a b = as_fileTracker_listing (FileTracker_List env ft a b)"
  using fileTracker_list_loop_eq [of env ft _ _ _ _ "[]"]
  by (simp add: fileTracker_list_def FileTracker_List_def fileTracker_validateHash_eq
      as_fileTracker_listing_def split: sum.splits)

text \<open>
  Claim C10. For every input, outside world and starting state (tracker, files and
  writer), \<^verbatim>\<open>fileTracker.commit\<close> returns the same result and the same final state as
  \<^verbatim>\<open>FileTracker.Commit\<close>; \<^verbatim>\<open>list\<close> returns the listing of \<^verbatim>\<open>List\<close>, item by item and
  field by field, with the same error or the same panic; \<^verbatim>\<open>validateHash\<close> and
  \<^verbatim>\<open>wholeFilePath\<close> return the same results in both copies.
\<close>

theorem copies_agree:
  "fileTracker_commit env cdc ft fls f s shard timestamp metahash metadata
     = FileTracker_Commit env cdc ft fls f s shard timestamp metahash metadata
   \<and> fileTracker_list env ft startHash stopHash
     = as_fileTracker_listing (FileTracker_List env ft startHash stopHash)
   \<and> fileTracker_validateHash ft s = FileTracker_validateHash ft s
   \<and> fileTracker_wholeFilePath ft s shard timestamp
     = FileTracker_wholeFilePath ft s shard timestamp"
  by (simp add: fileTracker_commit_eq fileTracker_list_eq fileTracker_validateHash_eq
      fileTracker_wholeFilePath_eq)

end
